theory Spec2Isabelle
  imports Main "HOL-Library.AList" "HOL-Library.Log_Nat"
begin

section \<open>JavaScript values as the transport layer sees them\<close>

text \<open>
  The node talks JSON: request bodies, query mappings and parsed responses are JSON
  values. An object is kept as the list of its own properties in insertion order (the
  keys of one object are distinct), an array as a list. Numbers are the integral ones
  (counts, amounts in minor units, status codes); the layer only tests a number for
  zero, compares it with 20 and prints it, and the printing is the runtime's (a
  parameter of the host below). A \<open>char\<close> stands for one code unit
  of a string. The JavaScript value \<open>undefined\<close> is not a JSON value: a read that
  yields \<open>undefined\<close> is \<open>None\<close>. The reads \<open>js_get\<close>, \<open>js_read\<close> and
  \<open>js_chain\<close> of the transport see own properties, and \<open>length\<close> and the indices
  of arrays and strings; the read of the Response Unwrapper, whose key is any string,
  sees the members an object inherits as well (\<open>object_get\<close>).
\<close>

datatype json =
    JNull
  | JBool bool
  | JNum int
  | JStr string
  | JArr "json list"
  | JObj "(string \<times> json) list"

type_synonym IDataObject = "(string \<times> json) list"

text \<open>What the source can throw: the transport's own failure, the structured
  \<open>NodeApiError\<close>, or the \<open>TypeError\<close> of a property read on \<open>null\<close>.
  \<open>NodeApiError\<close> is a class of the host's library, not of this repository:
  \<open>NodeApiError c\<close> stands for the object that
  \<open>new NodeApiError(node, cause, { message, httpCode })\<close> builds, and the record
  \<open>c\<close> keeps the arguments of that call. What the class makes of its arguments (the
  message and the code its object shows in the end) is not modelled.\<close>

record http_response =
  body :: "json option"
  statusCode :: "int option"

record transport_failure =
  response :: "http_response option"
  message :: string

record node_api_error =
  node :: string
  cause :: transport_failure
  message_option :: string
  httpCode_option :: "string option"

datatype thrown =
    TransportFailure transport_failure
  | NodeApiError node_api_error
  | TypeError

text \<open>ToBoolean: \<open>null\<close>, \<open>false\<close>, \<open>0\<close> and the empty string are falsy, every
  array and object is truthy; \<open>undefined\<close> is falsy.\<close>

fun truthy :: "json \<Rightarrow> bool" where
  "truthy JNull = False"
| "truthy (JBool b) = b"
| "truthy (JNum n) = (n \<noteq> 0)"
| "truthy (JStr s) = (s \<noteq> [])"
| "truthy (JArr xs) = True"
| "truthy (JObj kvs) = True"

fun truthy_opt :: "json option \<Rightarrow> bool" where
  "truthy_opt None = False"
| "truthy_opt (Some v) = truthy v"

text \<open>A property key that is a canonical array index: \<open>0\<close>, or decimal digits with
  no leading zero.\<close>

definition is_digit :: "char \<Rightarrow> bool" where
  "is_digit c = (48 \<le> (of_char c :: nat) \<and> (of_char c :: nat) \<le> 57)"

definition digit_value :: "char \<Rightarrow> nat" where
  "digit_value c = of_char c - 48"

definition index_of_key :: "string \<Rightarrow> nat option" where
  "index_of_key k =
     (if k = [] \<or> \<not> list_all is_digit k \<or> (hd k = CHR ''0'' \<and> k \<noteq> ''0'') then None
      else Some (foldl (\<lambda>n c. 10 * n + digit_value c) 0 k))"

text \<open>\<open>v[k]\<close> on a value that is neither \<open>null\<close> nor \<open>undefined\<close>.\<close>

fun js_get :: "json \<Rightarrow> string \<Rightarrow> json option" where
  "js_get (JObj kvs) k = map_of kvs k"
| "js_get (JArr xs) k =
     (if k = ''length'' then Some (JNum (int (length xs)))
      else case index_of_key k of
             Some i \<Rightarrow> (if i < length xs then Some (xs ! i) else None)
           | None \<Rightarrow> None)"
| "js_get (JStr s) k =
     (if k = ''length'' then Some (JNum (int (length s)))
      else case index_of_key k of
             Some i \<Rightarrow> (if i < length s then Some (JStr [s ! i]) else None)
           | None \<Rightarrow> None)"
| "js_get v k = None"

text \<open>\<open>v[k]\<close> in general: reading a property of \<open>null\<close> throws.\<close>

fun js_read :: "json \<Rightarrow> string \<Rightarrow> thrown + json option" where
  "js_read JNull k = Inl TypeError"
| "js_read v k = Inr (js_get v k)"

text \<open>\<open>v?.[k]\<close>: optional chaining short-circuits on \<open>null\<close> and \<open>undefined\<close>.\<close>

fun js_chain :: "json option \<Rightarrow> string \<Rightarrow> json option" where
  "js_chain None k = None"
| "js_chain (Some JNull) k = None"
| "js_chain (Some v) k = js_get v k"

section \<open>Response Unwrapper (utils: simplifyResponse)\<close>

text \<open>
  The key of the unwrapper is any string, so its read \<open>data[type]\<close> can land on a
  member that every object inherits from \<open>Object.prototype\<close>: a built-in function,
  or for \<open>__proto__\<close> the prototype object itself. An own property of that name comes
  first. A value is therefore a JSON value or such an inherited member, known by its
  name; the inherited members are objects, hence truthy.
\<close>

definition object_prototype_names :: "string list" where
  "object_prototype_names =
     [''constructor'', ''__defineGetter__'', ''__defineSetter__'', ''hasOwnProperty'',
      ''__lookupGetter__'', ''__lookupSetter__'', ''isPrototypeOf'', ''propertyIsEnumerable'',
      ''toString'', ''valueOf'', ''__proto__'', ''toLocaleString'']"

datatype js_value = Value json | Inherited string

fun truthy_value :: "js_value \<Rightarrow> bool" where
  "truthy_value (Value v) = truthy v"
| "truthy_value (Inherited name) = True"

text \<open>\<open>data[key]\<close> on an object.\<close>

definition object_get :: "IDataObject \<Rightarrow> string \<Rightarrow> js_value option" where
  "object_get data key =
     (case map_of data key of
        Some v \<Rightarrow> Some (Value v)
      | None \<Rightarrow> (if key \<in> set object_prototype_names then Some (Inherited key) else None))"

text \<open>
  \<^verbatim>\<open>
  export function simplifyResponse(data: IDataObject, type: string): IDataObject {
    if (data[type]) { return data[type] as IDataObject; }
    return data;
  }
  \<close>
  The parameter is an object, as its type says.
\<close>

definition simplifyResponse :: "IDataObject \<Rightarrow> string \<Rightarrow> js_value" where
  "simplifyResponse data type =
     (case object_get data type of
        None \<Rightarrow> Value (JObj data)
      | Some v \<Rightarrow> (if truthy_value v then v else Value (JObj data)))"

section \<open>Authenticated Request Executor (transport: spreedlyApiRequest)\<close>

text \<open>
  The host supplies three things through \<open>this\<close>: the credentials that
  \<open>getCredentials('spreedlyApi')\<close> resolves to, the node handle of \<open>getNode()\<close>,
  and the HTTP transport \<open>helpers.httpRequest\<close>. The transport is the outside world:
  it takes the world's state and the request options and answers with a parsed JSON
  response or rejects with its own failure, in a new state of the world. With them comes
  one thing of the JavaScript runtime the code runs on: how a number prints
  (\<open>Number.prototype.toString\<close>), which the layer uses and does not define.
\<close>

datatype IHttpRequestMethods = DELETE | GET | HEAD | PATCH | POST | PUT

record spreedlyApi_credentials =
  environmentKey :: string
  accessSecret :: string
  sandbox :: bool

record basic_auth =
  username :: string
  password :: string

record IHttpRequestOptions =
  "method" :: IHttpRequestMethods
  url :: string
  headers :: "(string \<times> string) list"
  auth :: basic_auth
  json :: bool
  body :: "IDataObject option"
  qs :: "IDataObject option"

record 'w host =
  getCredentials :: spreedlyApi_credentials
  getNode :: string
  httpRequest :: "'w \<Rightarrow> IHttpRequestOptions \<Rightarrow> (transport_failure + json) \<times> 'w"
  numberToString :: "int \<Rightarrow> string"

text \<open>
  The state a call runs in: the objects allocated so far (an address is an index into
  \<open>heap\<close>; only query mappings live there, the one kind of object the layer copies
  and writes), the state of the outside world, and the requests handed to the
  transport so far, oldest first.
\<close>

record 'w state =
  heap :: "IDataObject list"
  world :: 'w
  requests :: "IHttpRequestOptions list"

definition SPREEDLY_API_BASE_URL :: string where
  "SPREEDLY_API_BASE_URL = ''https://core.spreedly.com/v1''"

text \<open>Plain decimal digits. The hosts of the examples below print numbers this way,
  as JavaScript does for the integers of magnitude up to \<open>2^53\<close>; the resources of the
  examples get their tokens from it.\<close>

fun show_nat :: "nat \<Rightarrow> string" where
  "show_nat n =
     (if n < 10 then [''0123456789'' ! n]
      else show_nat (n div 10) @ [''0123456789'' ! (n mod 10)])"

definition show_int :: "int \<Rightarrow> string" where
  "show_int i = (if i < 0 then CHR ''-'' # show_nat (nat (- i)) else show_nat (nat i))"

fun join_with :: "string \<Rightarrow> string list \<Rightarrow> string" where
  "join_with sep [] = []"
| "join_with sep [x] = x"
| "join_with sep (x # y # ys) = x @ sep @ join_with sep (y # ys)"

text \<open>The first error of a list of results, or all the strings.\<close>

fun first_error :: "(thrown + string) list \<Rightarrow> thrown + string list" where
  "first_error [] = Inr []"
| "first_error (Inl e # rs) = Inl e"
| "first_error (Inr t # rs) = (case first_error rs of Inl e \<Rightarrow> Inl e | Inr ts \<Rightarrow> Inr (t # ts))"

text \<open>ToString, as a template literal applies it; \<open>num\<close> is the runtime's printing of
  numbers. An array prints its elements joined by commas, \<open>null\<close> elements as
  nothing. An object prints as \<open>[object Object]\<close> through the \<open>toString\<close> it inherits;
  an own property \<open>toString\<close> (of a parsed object: never a function) hides that
  method, and the conversion throws a \<open>TypeError\<close>.\<close>

fun js_to_string :: "(int \<Rightarrow> string) \<Rightarrow> json \<Rightarrow> thrown + string" where
  "js_to_string num JNull = Inr ''null''"
| "js_to_string num (JBool b) = Inr (if b then ''true'' else ''false'')"
| "js_to_string num (JNum n) = Inr (num n)"
| "js_to_string num (JStr s) = Inr s"
| "js_to_string num (JArr xs) =
     (case first_error (map (\<lambda>x. if x = JNull then Inr [] else js_to_string num x) xs) of
        Inl e \<Rightarrow> Inl e
      | Inr ts \<Rightarrow> Inr (join_with '','' ts))"
| "js_to_string num (JObj kvs) =
     (if map_of kvs ''toString'' = None then Inr ''[object Object]'' else Inl TypeError)"

text \<open>
  \<^verbatim>\<open>
  const options: IHttpRequestOptions = {
    method,
    url: `${SPREEDLY_API_BASE_URL}${endpoint}`,
    headers: { 'Content-Type': 'application/json', Accept: 'application/json' },
    auth: { username: credentials.environmentKey as string,
            password: credentials.accessSecret as string },
    json: true,
  };
  if (Object.keys(body).length > 0) { options.body = body; }
  if (Object.keys(query).length > 0) { options.qs = query; }
  \<close>
\<close>

definition spreedlyApiRequest_options ::
  "'w host \<Rightarrow> IHttpRequestMethods \<Rightarrow> string \<Rightarrow> IDataObject \<Rightarrow> IDataObject \<Rightarrow> IHttpRequestOptions"
where
  "spreedlyApiRequest_options this method' endpoint body' query =
     (let credentials = getCredentials this;
          options = \<lparr> method = method',
                      url = SPREEDLY_API_BASE_URL @ endpoint,
                      headers = [(''Content-Type'', ''application/json''),
                                 (''Accept'', ''application/json'')],
                      auth = \<lparr> username = environmentKey credentials,
                               password = accessSecret credentials \<rparr>,
                      json = True,
                      body = None,
                      qs = None \<rparr>;
          options = (if length (map fst body') > 0 then options \<lparr> body := Some body' \<rparr>
                     else options);
          options = (if length (map fst query) > 0 then options \<lparr> qs := Some query \<rparr>
                     else options)
      in options)"

text \<open>
  \<^verbatim>\<open>
  const errorMessage = error.response.body?.errors?.[0]?.message
    || error.response.body?.message
    || error.message;
  \<close>
  The value of the constant: the first of the three that is truthy, the last one at
  the latest.
\<close>

definition errorMessage :: "transport_failure \<Rightarrow> http_response \<Rightarrow> json" where
  "errorMessage error resp =
     (case js_chain (js_chain (js_chain (http_response.body resp) ''errors'') ''0'') ''message'' of
        Some m1 \<Rightarrow>
          (if truthy m1 then m1
           else case js_chain (http_response.body resp) ''message'' of
                  Some m2 \<Rightarrow> (if truthy m2 then m2 else JStr (message error))
                | None \<Rightarrow> JStr (message error))
      | None \<Rightarrow>
          (case js_chain (http_response.body resp) ''message'' of
             Some m2 \<Rightarrow> (if truthy m2 then m2 else JStr (message error))
           | None \<Rightarrow> JStr (message error)))"

text \<open>
  \<^verbatim>\<open>
  try {
    const response = await this.helpers.httpRequest(options);
    return response;
  } catch (error: any) {
    if (error.response) {
      const errorMessage = ...;
      throw new NodeApiError(this.getNode(), error, {
        message: `Spreedly API Error: ${errorMessage}`,
        httpCode: error.response.statusCode?.toString(),
      });
    }
    throw error;
  }
  \<close>
  The template literal converts \<open>errorMessage\<close> to a string; when that conversion
  throws, its \<open>TypeError\<close> leaves the \<open>catch\<close> block in place of the
  \<open>NodeApiError\<close>.
\<close>

definition spreedlyApiRequest ::
  "'w host \<Rightarrow> IHttpRequestMethods \<Rightarrow> string \<Rightarrow> IDataObject \<Rightarrow> IDataObject \<Rightarrow> 'w state
     \<Rightarrow> (thrown + json) \<times> 'w state"
where
  "spreedlyApiRequest this method' endpoint body' query s =
     (let options = spreedlyApiRequest_options this method' endpoint body' query;
          (result, w') = httpRequest this (world s) options;
          s' = s \<lparr> world := w', requests := requests s @ [options] \<rparr>
      in case result of
           Inr response' \<Rightarrow> (Inr response', s')
         | Inl error \<Rightarrow>
             (case response error of
                Some resp \<Rightarrow>
                  (case js_to_string (numberToString this) (errorMessage error resp) of
                     Inl e \<Rightarrow> (Inl e, s')
                   | Inr text \<Rightarrow>
                       (Inl (NodeApiError
                          \<lparr> node = getNode this,
                            cause = error,
                            message_option = ''Spreedly API Error: '' @ text,
                            httpCode_option =
                              map_option (numberToString this) (statusCode resp) \<rparr>), s'))
              | None \<Rightarrow> (Inl (TransportFailure error), s')))"

section \<open>Paginated Collector (transport: spreedlyApiRequestAllItems)\<close>

text \<open>\<open>{ ...query }\<close>: a new object with the own properties of the one at \<open>query\<close>;
  the result is its address.\<close>

definition spread_copy :: "nat \<Rightarrow> 'w state \<Rightarrow> nat \<times> 'w state" where
  "spread_copy query s = (length (heap s), s \<lparr> heap := heap s @ [heap s ! query] \<rparr>)"

text \<open>\<open>obj[key] = v\<close> on the object at an address.\<close>

definition assign :: "nat \<Rightarrow> string \<Rightarrow> json \<Rightarrow> 'w state \<Rightarrow> 'w state" where
  "assign a key v s = s \<lparr> heap := (heap s) [a := AList.update key v (heap s ! a)] \<rparr>"

text \<open>
  \<^verbatim>\<open>
  const items = responseData[propertyName];
  if (items && Array.isArray(items)) {
    returnData.push(...items);
    if (items.length > 0) { sinceToken = items[items.length - 1].token; }
  }
  \<close>
  The result is the new \<open>returnData\<close> and \<open>sinceToken\<close>.
\<close>

fun push_items ::
  "json option \<Rightarrow> json list \<Rightarrow> json option \<Rightarrow> thrown + (json list \<times> json option)"
where
  "push_items (Some (JArr items)) returnData sinceToken =
     (if length items > 0
      then (case js_read (items ! (length items - 1)) ''token'' of
              Inl e \<Rightarrow> Inl e
            | Inr token \<Rightarrow> Inr (returnData @ items, token))
      else Inr (returnData @ items, sinceToken))"
| "push_items items returnData sinceToken = Inr (returnData, sinceToken)"

text \<open>One pass through the body of the \<open>do ... while\<close> loop, with the loop test at its
  end: the pass throws, or leaves the loop with the collected items, or goes round
  again with the new \<open>returnData\<close> and \<open>sinceToken\<close>.
  \<^verbatim>\<open>
  do {
    const paginatedQuery = { ...query };
    if (sinceToken) { paginatedQuery.since_token = sinceToken; }
    responseData = await spreedlyApiRequest.call(this, method, endpoint, body, paginatedQuery);
    const items = responseData[propertyName];
    ...
  } while (responseData[propertyName]?.length === 20);
  return returnData;
  \<close>
\<close>

datatype pass = Throw thrown | Return "json list" | Again "json list" "json option"

definition paginated_pass ::
  "'w host \<Rightarrow> IHttpRequestMethods \<Rightarrow> string \<Rightarrow> string \<Rightarrow> IDataObject \<Rightarrow> nat
     \<Rightarrow> json list \<Rightarrow> json option \<Rightarrow> 'w state \<Rightarrow> pass \<times> 'w state"
where
  "paginated_pass this method' endpoint propertyName body' query returnData sinceToken s =
     (let (paginatedQuery, s1) = spread_copy query s;
          s2 = (case sinceToken of
                  Some t \<Rightarrow> (if truthy t then assign paginatedQuery ''since_token'' t s1 else s1)
                | None \<Rightarrow> s1)
      in case spreedlyApiRequest this method' endpoint body' (heap s2 ! paginatedQuery) s2 of
           (Inl e, s3) \<Rightarrow> (Throw e, s3)
         | (Inr responseData, s3) \<Rightarrow>
             (case js_read responseData propertyName of
                Inl e \<Rightarrow> (Throw e, s3)
              | Inr items \<Rightarrow>
                  (case push_items items returnData sinceToken of
                     Inl e \<Rightarrow> (Throw e, s3)
                   | Inr (returnData', sinceToken') \<Rightarrow>
                       (if js_chain items ''length'' = Some (JNum 20)
                        then (Again returnData' sinceToken', s3)
                        else (Return returnData', s3)))))"

text \<open>The loop. It need not end (a server that keeps answering with full pages keeps
  it going), so not returning is the value \<open>None\<close>.\<close>

partial_function (option) paginated_loop ::
  "'w host \<Rightarrow> IHttpRequestMethods \<Rightarrow> string \<Rightarrow> string \<Rightarrow> IDataObject \<Rightarrow> nat
     \<Rightarrow> json list \<Rightarrow> json option \<Rightarrow> 'w state \<Rightarrow> ((thrown + json list) \<times> 'w state) option"
where
  "paginated_loop this method' endpoint propertyName body' query returnData sinceToken s =
     (case paginated_pass this method' endpoint propertyName body' query returnData sinceToken s of
        (Throw e, s') \<Rightarrow> Some (Inl e, s')
      | (Return returnData', s') \<Rightarrow> Some (Inr returnData', s')
      | (Again returnData' sinceToken', s') \<Rightarrow>
          paginated_loop this method' endpoint propertyName body' query returnData' sinceToken' s')"

definition spreedlyApiRequestAllItems ::
  "'w host \<Rightarrow> IHttpRequestMethods \<Rightarrow> string \<Rightarrow> string \<Rightarrow> IDataObject \<Rightarrow> nat \<Rightarrow> 'w state
     \<Rightarrow> ((thrown + json list) \<times> 'w state) option"
where
  "spreedlyApiRequestAllItems this method' endpoint propertyName body' query s =
     paginated_loop this method' endpoint propertyName body' query [] None s"


section \<open>Key-Case Codec (utils: snakeToCamel, camelToSnake)\<close>

definition is_lower :: "char \<Rightarrow> bool" where
  "is_lower c = (97 \<le> (of_char c :: nat) \<and> (of_char c :: nat) \<le> 122)"

definition is_upper :: "char \<Rightarrow> bool" where
  "is_upper c = (65 \<le> (of_char c :: nat) \<and> (of_char c :: nat) \<le> 90)"

text \<open>\<open>toUpperCase\<close> and \<open>toLowerCase\<close> on the one letter the patterns capture.\<close>

definition toUpperCase :: "char \<Rightarrow> char" where
  "toUpperCase c = (if is_lower c then char_of (of_char c - (32 :: nat)) else c)"

definition toLowerCase :: "char \<Rightarrow> char" where
  "toLowerCase c = (if is_upper c then char_of (of_char c + (32 :: nat)) else c)"

text \<open>
  \<^verbatim>\<open>str.replace(/_([a-z])/g, (_, letter) => letter.toUpperCase())\<close>:
  the scan goes left to right; an underscore followed by a lowercase letter is replaced,
  with that letter, by the upper-case letter, and the scan goes on behind the letter.
\<close>

fun snakeToCamel :: "string \<Rightarrow> string" where
  "snakeToCamel (c # d # cs) =
     (if c = CHR ''_'' \<and> is_lower d then toUpperCase d # snakeToCamel cs
      else c # snakeToCamel (d # cs))"
| "snakeToCamel cs = cs"

text \<open>\<^verbatim>\<open>str.replace(/[A-Z]/g, (letter) => `_${letter.toLowerCase()}`)\<close>\<close>

definition camelToSnake :: "string \<Rightarrow> string" where
  "camelToSnake str =
     concat (map (\<lambda>letter. if is_upper letter then [CHR ''_'', toLowerCase letter] else [letter]) str)"

text \<open>The strings the round trip is about: those in which no underscore stands
  directly before a lowercase letter (a camel-case identifier has no underscore at
  all).\<close>

fun snake_boundary :: "string \<Rightarrow> bool" where
  "snake_boundary (c # d # cs) = ((c = CHR ''_'' \<and> is_lower d) \<or> snake_boundary (d # cs))"
| "snake_boundary cs = False"

section \<open>Card number check (utils: isValidCreditCardNumber)\<close>

text \<open>
  \<^verbatim>\<open>
  let sum = 0;            (the accumulator acc)
  let isEven = false;
  for (let i = digits.length - 1; i >= 0; i--) {
    let digit = parseInt(digits[i], 10);
    if (isEven) { digit *= 2; if (digit > 9) { digit -= 9; } }
    sum += digit;
    isEven = !isEven;
  }
  \<close>
  The counter of \<open>luhn_loop\<close> is \<open>i + 1\<close>: the loop ends when it is \<open>0\<close>.
\<close>

fun luhn_loop :: "string \<Rightarrow> nat \<Rightarrow> nat \<Rightarrow> bool \<Rightarrow> nat" where
  "luhn_loop digits 0 acc isEven = acc"
| "luhn_loop digits (Suc i) acc isEven =
     (let digit = digit_value (digits ! i);
          digit = (if isEven
                   then (let digit = digit * 2 in if digit > 9 then digit - 9 else digit)
                   else digit)
      in luhn_loop digits i (acc + digit) (\<not> isEven))"

text \<open>
  \<^verbatim>\<open>
  const digits = cardNumber.replace(/\D/g, '');
  if (digits.length < 13 || digits.length > 19) { return false; }
  ...
  return sum % 10 === 0;
  \<close>
\<close>

definition isValidCreditCardNumber :: "string \<Rightarrow> bool" where
  "isValidCreditCardNumber cardNumber =
     (let digits = filter is_digit cardNumber
      in if length digits < 13 \<or> length digits > 19 then False
         else luhn_loop digits (length digits) 0 False mod 10 = 0)"

text \<open>The check as the specification words it: of the digits read from the right,
  every second one is doubled, a doubled digit above 9 loses 9, and all are summed.\<close>

fun luhn_checksum :: "nat list \<Rightarrow> nat" where
  "luhn_checksum [] = 0"
| "luhn_checksum [a] = a"
| "luhn_checksum (a # b # ds) =
     a + (if 2 * b > 9 then 2 * b - 9 else 2 * b) + luhn_checksum ds"

definition card_number_valid :: "string \<Rightarrow> bool" where
  "card_number_valid cardNumber =
     (let ds = map digit_value (filter is_digit cardNumber)
      in 13 \<le> length ds \<and> length ds \<le> 19 \<and> luhn_checksum (rev ds) mod 10 = 0)"


section \<open>Auxiliary notions for the statements\<close>

text \<open>The mapping a pass of the collector sends as its query: the caller's mapping,
  with \<open>since_token\<close> set when the cursor is truthy (source lines 85 to 88, on
  values).\<close>

definition cursor_query :: "IDataObject \<Rightarrow> json option \<Rightarrow> IDataObject" where
  "cursor_query query sinceToken =
     (case sinceToken of
        Some t \<Rightarrow> (if truthy t then AList.update ''since_token'' t query else query)
      | None \<Rightarrow> query)"

text \<open>Hosts to run the layer against, on a runtime that prints numbers as
  \<open>show_int\<close> does. \<open>fixed_host\<close> answers every request the same way. \<open>list_host\<close> serves a collection of 47 resources with tokens \<open>1\<close> to
  \<open>47\<close>, in pages of 20 behind the cursor of the request.\<close>

definition test_credentials :: spreedlyApi_credentials where
  "test_credentials = \<lparr> environmentKey = ''E1234567890ABCDEF'', accessSecret = ''secret'',
                         sandbox = True \<rparr>"

definition fixed_host :: "transport_failure + json \<Rightarrow> unit host" where
  "fixed_host answer =
     \<lparr> getCredentials = test_credentials, getNode = ''Spreedly'',
       httpRequest = (\<lambda>w options. (answer, w)), numberToString = show_int \<rparr>"

text \<open>Two failures of the transport: a rejection by the service with a response, and
  a failure of the network with none.\<close>

definition invalid_token_failure :: transport_failure where
  "invalid_token_failure =
     \<lparr> response = Some \<lparr> http_response.body =
                            Some (JObj [(''errors'', JArr [JObj [(''message'', JStr ''Invalid token'')]])]),
                          statusCode = Some 422 \<rparr>,
       message = ''Request failed with status code 422'' \<rparr>"

definition network_failure :: transport_failure where
  "network_failure = \<lparr> response = None, message = ''connect ECONNREFUSED'' \<rparr>"

definition resource :: "nat \<Rightarrow> json" where
  "resource i = JObj [(''token'', JStr (show_nat i))]"

definition list_transport :: "unit \<Rightarrow> IHttpRequestOptions \<Rightarrow> (transport_failure + json) \<times> unit" where
  "list_transport w options =
     (let seen = (case qs options of
                    None \<Rightarrow> 0
                  | Some q \<Rightarrow>
                      (case map_of q ''since_token'' of
                         Some (JStr t) \<Rightarrow> (case index_of_key t of Some n \<Rightarrow> n | None \<Rightarrow> 0)
                       | _ \<Rightarrow> 0))
      in (Inr (JObj [(''transactions'', JArr (map resource [seen + 1 ..< min (seen + 21) 48]))]), w))"

definition list_host :: "unit host" where
  "list_host = \<lparr> getCredentials = test_credentials, getNode = ''Spreedly'',
                 httpRequest = list_transport, numberToString = show_int \<rparr>"

text \<open>A response whose \<open>transactions\<close> is not an array but a string of 20
  characters.\<close>

definition malformed_page :: json where
  "malformed_page = JObj [(''transactions'', JStr ''aaaaaaaaaaaaaaaaaaaa'')]"

text \<open>The state a caller starts from: its query mapping is the one object allocated,
  at address \<open>0\<close>, and nothing has been sent.\<close>

definition start :: "IDataObject \<Rightarrow> unit state" where
  "start query = \<lparr> heap = [query], world = (), requests = [] \<rparr>"

section \<open>Amount Codec (transport: formatAmountInCents, formatCentsToAmount)\<close>

text \<open>
  An amount is a JavaScript number: an IEEE 754 double. A double is \<open>NaN\<close> or has a
  sign (\<open>True\<close> for minus) and a magnitude, which is infinite or a rational
  \<open>m * 2^e\<close> with \<open>0 \<le> m < 2^53\<close> and \<open>-1074 \<le> e \<le> 971\<close>. Arithmetic computes
  the exact rational result and rounds it to the nearest double, ties to the even
  significand; a result of magnitude \<open>2^1024\<close> or more is infinite.
\<close>

datatype magnitude = Finite rat | Infinite

datatype number = NaN | Num bool magnitude

text \<open>For \<open>x > 0\<close>, the integer \<open>l\<close> with \<open>2^l \<le> x < 2^(l+1)\<close>, from the bit lengths
  of numerator and denominator.\<close>

definition floor_log2 :: "rat \<Rightarrow> int" where
  "floor_log2 x =
     (let (p, q) = quotient_of x;
          l = bitlen p - bitlen q
      in if 2 powi l \<le> x then l else l - 1)"

definition round_half_even :: "rat \<Rightarrow> int" where
  "round_half_even y =
     (let f = \<lfloor>y\<rfloor>; d = y - of_int f
      in if d < 1 / 2 then f
         else if 1 / 2 < d then f + 1
         else if even f then f else f + 1)"

text \<open>The magnitude from which a rounded result is infinite.\<close>

definition overflow_threshold :: rat where
  "overflow_threshold = 2 powi 1024"

text \<open>Rounding a rational \<open>x \<ge> 0\<close> to a double: the exponent is that of \<open>x\<close> with a
  significand of 53 bits, but not below the subnormal exponent \<open>-1074\<close>.\<close>

definition round_magnitude :: "rat \<Rightarrow> magnitude" where
  "round_magnitude x =
     (if x = 0 then Finite 0
      else let e = max (floor_log2 x - 52) (- 1074);
               m = round_half_even (x / 2 powi e);
               y = of_int m * 2 powi e
           in if overflow_threshold \<le> y then Infinite else Finite y)"

text \<open>The number a decimal literal denotes.\<close>

definition literal :: "rat \<Rightarrow> number" where
  "literal x = Num (x < 0) (round_magnitude \<bar>x\<bar>)"

text \<open>\<open>a * b\<close> and \<open>a / b\<close> on numbers.\<close>

fun times_number :: "number \<Rightarrow> number \<Rightarrow> number" where
  "times_number (Num s (Finite a)) (Num t (Finite b)) = Num (s \<noteq> t) (round_magnitude (a * b))"
| "times_number (Num s (Finite a)) (Num t Infinite) =
     (if a = 0 then NaN else Num (s \<noteq> t) Infinite)"
| "times_number (Num s Infinite) (Num t (Finite b)) =
     (if b = 0 then NaN else Num (s \<noteq> t) Infinite)"
| "times_number (Num s Infinite) (Num t Infinite) = Num (s \<noteq> t) Infinite"
| "times_number a b = NaN"

fun divide_number :: "number \<Rightarrow> number \<Rightarrow> number" where
  "divide_number (Num s (Finite a)) (Num t (Finite b)) =
     (if b = 0 then (if a = 0 then NaN else Num (s \<noteq> t) Infinite)
      else Num (s \<noteq> t) (round_magnitude (a / b)))"
| "divide_number (Num s (Finite a)) (Num t Infinite) = Num (s \<noteq> t) (Finite 0)"
| "divide_number (Num s Infinite) (Num t (Finite b)) = Num (s \<noteq> t) Infinite"
| "divide_number a b = NaN"

text \<open>\<open>Math.round\<close>: the nearest integer, a tie going up; the result keeps the sign
  of the argument when it is zero. No rounding to a double is needed: a double of
  magnitude \<open>2^52\<close> or more is an integer already.\<close>

fun Math_round :: "number \<Rightarrow> number" where
  "Math_round NaN = NaN"
| "Math_round (Num s Infinite) = Num s Infinite"
| "Math_round (Num s (Finite a)) =
     (let r = \<lfloor>(if s then - a else a) + 1 / 2\<rfloor>
      in if r = 0 then Num s (Finite 0) else Num (r < 0) (Finite (of_int \<bar>r\<bar>)))"

text \<open>
  \<^verbatim>\<open>
  export function formatAmountInCents(amount: number): number {
    return Math.round(amount * 100);
  }
  export function formatCentsToAmount(cents: number): number {
    return cents / 100;
  }
  \<close>
\<close>

definition formatAmountInCents :: "number \<Rightarrow> number" where
  "formatAmountInCents amount = Math_round (times_number amount (literal 100))"

definition formatCentsToAmount :: "number \<Rightarrow> number" where
  "formatCentsToAmount cents = divide_number cents (literal 100)"

section \<open>Evaluation set-up\<close>

declare show_nat.simps [simp del]
declare paginated_loop.simps [code]

section \<open>Response Unwrapper\<close>

text \<open>
  Claim C6, as amended. On an envelope mapping \<open>e\<close> and a key \<open>k\<close> the unwrapper
  never fails. When \<open>k\<close> is present in \<open>e\<close> it returns the value \<open>e[k]\<close> if that is
  truthy, and \<open>e\<close> itself if that is falsy (\<open>null\<close>, \<open>false\<close>, \<open>0\<close>, the empty
  string): the source tests \<open>if (data[type])\<close>. When \<open>k\<close> is absent from \<open>e\<close> it
  returns \<open>e\<close> itself, unless \<open>k\<close> names a member that every object inherits
  (\<open>toString\<close>, \<open>constructor\<close> and the like), which the read finds and the
  unwrapper returns. In particular
  \<open>unwrap({ transaction: { token: "T1" } }, "transaction")\<close> is \<open>{ token: "T1" }\<close>, and
  so is \<open>unwrap({ token: "T1" }, "transaction")\<close>.
\<close>

theorem simplifyResponse_unwrap:
  "simplifyResponse e k =
     (case map_of e k of
        Some v \<Rightarrow> if truthy v then Value v else Value (JObj e)
      | None \<Rightarrow> if k \<in> set object_prototype_names then Inherited k else Value (JObj e))
   \<and> simplifyResponse [(''transaction'', JObj [(''token'', JStr ''T1'')])] ''transaction''
       = Value (JObj [(''token'', JStr ''T1'')])
   \<and> simplifyResponse [(''token'', JStr ''T1'')] ''transaction''
       = Value (JObj [(''token'', JStr ''T1'')])"
proof (intro conjI)
  show "simplifyResponse e k =
     (case map_of e k of
        Some v \<Rightarrow> if truthy v then Value v else Value (JObj e)
      | None \<Rightarrow> if k \<in> set object_prototype_names then Inherited k else Value (JObj e))"
    by (simp add: simplifyResponse_def object_get_def split: option.split)
  show "simplifyResponse [(''transaction'', JObj [(''token'', JStr ''T1'')])] ''transaction''
       = Value (JObj [(''token'', JStr ''T1'')])"
    by (simp add: simplifyResponse_def object_get_def)
  show "simplifyResponse [(''token'', JStr ''T1'')] ''transaction''
       = Value (JObj [(''token'', JStr ''T1'')])"
    by (simp add: simplifyResponse_def object_get_def object_prototype_names_def)
qed

text \<open>The claim as first stated fails where the key is present with a falsy value: for
  \<open>{ transaction: null }\<close> the value at the key is \<open>null\<close>, and the unwrapper returns
  the envelope, not \<open>null\<close>.\<close>

theorem simplifyResponse_falsy_counterexample:
  "map_of [(''transaction'', JNull)] ''transaction'' = Some JNull
   \<and> simplifyResponse [(''transaction'', JNull)] ''transaction''
       = Value (JObj [(''transaction'', JNull)])
   \<and> simplifyResponse [(''transaction'', JNull)] ''transaction'' \<noteq> Value JNull"
  by (simp add: simplifyResponse_def object_get_def)

text \<open>It fails as well where the key is absent but inherited: for the empty envelope
  and the key \<open>toString\<close> the unwrapper returns the built-in method.\<close>

lemma simplifyResponse_inherited:
  "map_of [] ''toString'' = None"
  "simplifyResponse [] ''toString'' = Inherited ''toString''"
  by (simp_all add: simplifyResponse_def object_get_def object_prototype_names_def)

section \<open>Authenticated Request Executor\<close>

lemma spreedlyApiRequest_ok:
  "httpRequest hst (world s) (spreedlyApiRequest_options hst m ep b q) = (Inr r, w') \<Longrightarrow>
   spreedlyApiRequest hst m ep b q s =
     (Inr r, s \<lparr> world := w', requests := requests s @ [spreedlyApiRequest_options hst m ep b q] \<rparr>)"
  by (simp add: spreedlyApiRequest_def Let_def)

lemma spreedlyApiRequest_state:
  "httpRequest hst (world s) (spreedlyApiRequest_options hst m ep b q) = (result, w') \<Longrightarrow>
   snd (spreedlyApiRequest hst m ep b q s) =
     s \<lparr> world := w', requests := requests s @ [spreedlyApiRequest_options hst m ep b q] \<rparr>"
  by (simp add: spreedlyApiRequest_def Let_def split: sum.split option.split)

text \<open>
  Claim C4. The request handed to the transport is the one built from the descriptor.
  Built from an empty body mapping it has no body field at all (\<open>None\<close>, not an empty
  object); built from an empty query mapping it has no query field; a non-empty body or
  query is attached as given.
\<close>

theorem request_body_and_query_attached:
  "requests (snd (spreedlyApiRequest hst m ep b q s))
     = requests s @ [spreedlyApiRequest_options hst m ep b q]
   \<and> body (spreedlyApiRequest_options hst m ep b q) = (if b = [] then None else Some b)
   \<and> qs (spreedlyApiRequest_options hst m ep b q) = (if q = [] then None else Some q)"
proof -
  obtain result w' where
    "httpRequest hst (world s) (spreedlyApiRequest_options hst m ep b q) = (result, w')"
    by (cases "httpRequest hst (world s) (spreedlyApiRequest_options hst m ep b q)")
  then have "requests (snd (spreedlyApiRequest hst m ep b q s))
     = requests s @ [spreedlyApiRequest_options hst m ep b q]"
    by (simp add: spreedlyApiRequest_state)
  moreover have "body (spreedlyApiRequest_options hst m ep b q) = (if b = [] then None else Some b)"
    by (simp add: spreedlyApiRequest_options_def Let_def)
  moreover have "qs (spreedlyApiRequest_options hst m ep b q) = (if q = [] then None else Some q)"
    by (simp add: spreedlyApiRequest_options_def Let_def)
  ultimately show ?thesis by simp
qed

text \<open>
  Claim C5. When the transport rejects with a failure that carries no response, the
  executor throws that very failure: no enrichment, no wrapping, no new message.
\<close>

theorem network_failure_rethrown:
  assumes "httpRequest hst (world s) (spreedlyApiRequest_options hst m ep b q) = (Inl error, w')"
    and "response error = None"
  shows "fst (spreedlyApiRequest hst m ep b q s) = Inl (TransportFailure error)"
  using assms by (simp add: spreedlyApiRequest_def Let_def)

theorem network_failure_rethrown_witness:
  "response network_failure = None
   \<and> fst (spreedlyApiRequest (fixed_host (Inl network_failure)) GET ''/gateways.json'' [] []
            (start []))
       = Inl (TransportFailure network_failure)"
proof -
  have h: "httpRequest (fixed_host (Inl network_failure)) (world (start []))
             (spreedlyApiRequest_options (fixed_host (Inl network_failure)) GET ''/gateways.json'' [] [])
           = (Inl network_failure, ())"
    by (simp add: fixed_host_def)
  have r: "response network_failure = None"
    by (simp add: network_failure_def)
  from network_failure_rethrown [OF h r] r show ?thesis by simp
qed

text \<open>A string prints as itself.\<close>

lemma js_to_string_string: "js_to_string num (JStr t) = Inr t"
  by simp

text \<open>
  Claim C2, as amended. When the transport rejects with a failure that carries a
  response, the executor throws the \<open>NodeApiError\<close> that it constructs from the
  node, the failure and two options. The \<open>message\<close> option is the text
  \<open>Spreedly API Error: \<close> followed by the string conversion of, in priority order,
  \<open>errors[0].message\<close> of the response body if that is truthy, else the body's
  \<open>message\<close> if that is truthy, else the transport failure's own message (a string
  converts to itself; when the conversion throws, its \<open>TypeError\<close> is thrown
  instead). The \<open>httpCode\<close> option is \<open>statusCode.toString()\<close> of the response, and
  \<open>undefined\<close> when the response has no \<open>statusCode\<close>. What the class, which belongs
  to the host's library, then shows as the message and the code of its object is
  outside this repository. For the body \<open>{ errors: [{ message: "Invalid token" }] }\<close>
  with status 422 the \<open>message\<close> option is \<open>Spreedly API Error: Invalid token\<close> and
  the \<open>httpCode\<close> option is the string \<open>422\<close>.
\<close>

theorem api_error_translation:
  assumes "httpRequest hst (world s) (spreedlyApiRequest_options hst m ep b q) = (Inl error, w')"
    and "response error = Some resp"
  shows "fst (spreedlyApiRequest hst m ep b q s) =
     (let m1 = js_chain (js_chain (js_chain (http_response.body resp) ''errors'') ''0'') ''message'';
          m2 = js_chain (http_response.body resp) ''message'';
          selected = (if truthy_opt m1 then the m1
                      else if truthy_opt m2 then the m2
                      else JStr (message error))
      in case js_to_string (numberToString hst) selected of
           Inl e \<Rightarrow> Inl e
         | Inr text \<Rightarrow>
             Inl (NodeApiError
               \<lparr> node = getNode hst,
                 cause = error,
                 message_option = ''Spreedly API Error: '' @ text,
                 httpCode_option = map_option (numberToString hst) (statusCode resp) \<rparr>))
     \<and> js_to_string (numberToString hst) (JStr t) = Inr t"
proof -
  have sel: "errorMessage error resp =
     (let m1 = js_chain (js_chain (js_chain (http_response.body resp) ''errors'') ''0'') ''message'';
          m2 = js_chain (http_response.body resp) ''message''
      in if truthy_opt m1 then the m1
         else if truthy_opt m2 then the m2
         else JStr (message error))"
    by (simp add: errorMessage_def Let_def split: option.split)
  have "fst (spreedlyApiRequest hst m ep b q s) =
     (case js_to_string (numberToString hst) (errorMessage error resp) of
           Inl e \<Rightarrow> Inl e
         | Inr text \<Rightarrow>
             Inl (NodeApiError
               \<lparr> node = getNode hst,
                 cause = error,
                 message_option = ''Spreedly API Error: '' @ text,
                 httpCode_option = map_option (numberToString hst) (statusCode resp) \<rparr>))"
    using assms by (simp add: spreedlyApiRequest_def Let_def split: sum.split)
  then show ?thesis
    unfolding sel by (simp add: Let_def js_to_string_string)
qed

lemma invalid_token_rejected:
  "httpRequest (fixed_host (Inl invalid_token_failure)) (world (start []))
     (spreedlyApiRequest_options (fixed_host (Inl invalid_token_failure)) POST ''/gateways.json'' [] [])
   = (Inl invalid_token_failure, ())"
  by (simp add: fixed_host_def)

lemma show_int_422: "show_int 422 = ''422''"
  by (simp add: show_int_def show_nat.simps)

theorem api_error_translation_witness:
  "fst (spreedlyApiRequest (fixed_host (Inl invalid_token_failure)) POST ''/gateways.json'' [] []
          (start []))
     = Inl (NodeApiError
         \<lparr> node = ''Spreedly'', cause = invalid_token_failure,
           message_option = ''Spreedly API Error: Invalid token'',
           httpCode_option = Some ''422'' \<rparr>)"
proof -
  have r: "response invalid_token_failure
             = Some \<lparr> http_response.body =
                        Some (JObj [(''errors'', JArr [JObj [(''message'', JStr ''Invalid token'')]])]),
                      statusCode = Some 422 \<rparr>"
    by (simp add: invalid_token_failure_def)
  from api_error_translation [OF invalid_token_rejected r, THEN conjunct1] show ?thesis
    by (simp add: fixed_host_def index_of_key_def is_digit_def digit_value_def show_int_422)
qed

text \<open>The claim as first stated fails on its own example: the message the executor
  makes for the error is not \<open>Invalid token\<close> but that text behind the prefix, and the
  code it gives is a string.\<close>

theorem api_error_message_counterexample:
  "(case fst (spreedlyApiRequest (fixed_host (Inl invalid_token_failure)) POST ''/gateways.json''
               [] [] (start [])) of
      Inl (NodeApiError e) \<Rightarrow>
        message_option e = ''Spreedly API Error: Invalid token''
        \<and> message_option e \<noteq> ''Invalid token'' \<and> httpCode_option e = Some ''422''
    | _ \<Rightarrow> False)"
  by (simp add: spreedlyApiRequest_def Let_def fixed_host_def invalid_token_failure_def
      errorMessage_def index_of_key_def is_digit_def digit_value_def show_int_422)

text \<open>A message that is an object with an own \<open>toString\<close> cannot be converted: the
  executor throws the \<open>TypeError\<close> of the conversion.\<close>

lemma api_error_unprintable_message:
  "fst (spreedlyApiRequest
          (fixed_host (Inl \<lparr> response = Some \<lparr> http_response.body =
                                   Some (JObj [(''message'', JObj [(''toString'', JNum 1)])]),
                                 statusCode = Some 500 \<rparr>,
                              message = ''Request failed with status code 500'' \<rparr>))
          GET ''/gateways.json'' [] [] (start []))
     = Inl TypeError"
  by (simp add: spreedlyApiRequest_def Let_def fixed_host_def errorMessage_def)

section \<open>Paginated Collector\<close>

subsection \<open>One pass of the loop\<close>

lemma js_read_not_null: "js_get r k = Some v \<Longrightarrow> js_read r k = Inr (Some v)"
  by (cases r) simp_all

lemma pass_query:
  "(case sinceToken of
      Some t \<Rightarrow> (if truthy t
                 then assign (length (heap s)) ''since_token'' t (s \<lparr> heap := heap s @ [heap s ! query] \<rparr>)
                 else s \<lparr> heap := heap s @ [heap s ! query] \<rparr>)
    | None \<Rightarrow> s \<lparr> heap := heap s @ [heap s ! query] \<rparr>)
   = s \<lparr> heap := heap s @ [cursor_query (heap s ! query) sinceToken] \<rparr>"
  by (simp add: assign_def cursor_query_def split: option.split)

text \<open>A pass that is answered with a page: the page is appended, the cursor moves to
  the token of the page's last element (an empty page leaves it alone), and the loop
  goes on exactly when the page has 20 elements.\<close>

lemma paginated_pass_page:
  assumes h: "httpRequest hst (world s)
                (spreedlyApiRequest_options hst m ep b (cursor_query (heap s ! query) tok)) = (Inr r, w')"
    and items: "js_get r pn = Some (JArr p)"
    and nn: "p = [] \<or> last p \<noteq> JNull"
  shows "paginated_pass hst m ep pn b query rd tok s =
     ((if length p = 20 then Again (rd @ p) (if p = [] then tok else js_get (last p) ''token'')
       else Return (rd @ p)),
      s \<lparr> heap := heap s @ [cursor_query (heap s ! query) tok], world := w',
          requests := requests s @
            [spreedlyApiRequest_options hst m ep b (cursor_query (heap s ! query) tok)] \<rparr>)"
proof -
  have rd: "js_read r pn = Inr (Some (JArr p))"
    using items by (rule js_read_not_null)
  have push: "push_items (Some (JArr p)) rd tok =
      Inr (rd @ p, if p = [] then tok else js_get (last p) ''token'')"
  proof (cases "p = []")
    case True
    then show ?thesis by simp
  next
    case False
    with nn have "last p \<noteq> JNull" by simp
    then have "js_read (last p) ''token'' = Inr (js_get (last p) ''token'')"
      by (cases "last p") simp_all
    with False show ?thesis by (simp add: last_conv_nth)
  qed
  show ?thesis
    unfolding paginated_pass_def spread_copy_def Let_def prod.case pass_query
    using h by (simp add: spreedlyApiRequest_ok rd push del: push_items.simps)
qed

text \<open>Whatever the answer, a pass allocates one object, the copy of the caller's query
  with the cursor, sends one request carrying that copy, and writes nowhere else.\<close>

lemma paginated_pass_state:
  "\<exists>w'. snd (paginated_pass hst m ep pn b query rd tok s) =
     s \<lparr> heap := heap s @ [cursor_query (heap s ! query) tok], world := w',
         requests := requests s @
           [spreedlyApiRequest_options hst m ep b (cursor_query (heap s ! query) tok)] \<rparr>"
proof -
  let ?s2 = "s \<lparr> heap := heap s @ [cursor_query (heap s ! query) tok] \<rparr>"
  let ?o = "spreedlyApiRequest_options hst m ep b (cursor_query (heap s ! query) tok)"
  obtain result w' where h: "httpRequest hst (world s) ?o = (result, w')"
    by (cases "httpRequest hst (world s) ?o")
  have "snd (spreedlyApiRequest hst m ep b (cursor_query (heap s ! query) tok) ?s2)
          = ?s2 \<lparr> world := w', requests := requests s @ [?o] \<rparr>"
    using h by (simp add: spreedlyApiRequest_state)
  then have "snd (paginated_pass hst m ep pn b query rd tok s)
          = ?s2 \<lparr> world := w', requests := requests s @ [?o] \<rparr>"
    unfolding paginated_pass_def spread_copy_def Let_def prod.case pass_query
    by (auto split: prod.split sum.split simp del: push_items.simps)
  then show ?thesis by auto
qed

subsection \<open>The whole loop\<close>

text \<open>If the loop returns, the objects that existed before are an unchanged prefix of
  the heap, and the requests sent before a prefix of the requests.\<close>

lemma paginated_loop_grows:
  assumes "paginated_loop hst m ep pn b query rd tok s = Some y"
  shows "(\<exists>cells. heap (snd y) = heap s @ cells) \<and> (\<exists>sent. requests (snd y) = requests s @ sent)"
proof (rule paginated_loop.raw_induct
    [where P = "\<lambda>hst m ep pn b query rd tok s y.
       (\<exists>cells. heap (snd y) = heap s @ cells) \<and> (\<exists>sent. requests (snd y) = requests s @ sent)",
     OF _ assms])
  fix loop :: "'a host \<Rightarrow> IHttpRequestMethods \<Rightarrow> string \<Rightarrow> string \<Rightarrow> IDataObject \<Rightarrow> nat
                 \<Rightarrow> json list \<Rightarrow> json option \<Rightarrow> 'a state \<Rightarrow> ((thrown + json list) \<times> 'a state) option"
    and hst m ep pn b query rd tok s y
  assume IH: "\<And>hst m ep pn b query rd tok s y. loop hst m ep pn b query rd tok s = Some y \<Longrightarrow>
      (\<exists>cells. heap (snd y) = heap s @ cells) \<and> (\<exists>sent. requests (snd y) = requests s @ sent)"
    and step: "(case paginated_pass hst m ep pn b query rd tok s of
                  (Throw e, s') \<Rightarrow> Some (Inl e, s')
                | (Return returnData', s') \<Rightarrow> Some (Inr returnData', s')
                | (Again returnData' sinceToken', s') \<Rightarrow>
                    loop hst m ep pn b query returnData' sinceToken' s') = Some y"
  obtain p s1 where pass: "paginated_pass hst m ep pn b query rd tok s = (p, s1)"
    by (cases "paginated_pass hst m ep pn b query rd tok s")
  from paginated_pass_state [of hst m ep pn b query rd tok s] pass
  have s1: "\<exists>c. heap s1 = heap s @ [c]" "\<exists>r. requests s1 = requests s @ [r]"
    by auto
  show "(\<exists>cells. heap (snd y) = heap s @ cells) \<and> (\<exists>sent. requests (snd y) = requests s @ sent)"
  proof (cases p)
    case (Throw e)
    with step pass s1 show ?thesis by auto
  next
    case (Return xs)
    with step pass s1 show ?thesis by auto
  next
    case (Again rd' tok')
    with step pass have "loop hst m ep pn b query rd' tok' s1 = Some y" by simp
    from IH [OF this] s1 show ?thesis by auto
  qed
qed

text \<open>The loop ends with the pass whose page does not have exactly 20 elements.\<close>

lemma paginated_loop_last_page:
  assumes "httpRequest hst (world s)
             (spreedlyApiRequest_options hst m ep b (cursor_query (heap s ! query) tok)) = (Inr r, w')"
    and "js_get r pn = Some (JArr p)"
    and "length p \<noteq> 20"
    and "p = [] \<or> last p \<noteq> JNull"
  shows "paginated_loop hst m ep pn b query rd tok s =
     Some (Inr (rd @ p),
       s \<lparr> heap := heap s @ [cursor_query (heap s ! query) tok], world := w',
           requests := requests s @
             [spreedlyApiRequest_options hst m ep b (cursor_query (heap s ! query) tok)] \<rparr>)"
  using paginated_pass_page [OF assms(1,2,4), where rd = rd] assms(3)
  by (subst paginated_loop.simps) simp

text \<open>Three pages of 20, 20 and 7 elements.\<close>

lemma three_pages_run:
  assumes q: "query < length (heap s)"
    and c1: "c1 = heap s ! query"
    and h1: "httpRequest hst (world s) (spreedlyApiRequest_options hst m ep b c1) = (Inr r1, w1)"
    and p1: "js_get r1 pn = Some (JArr p1)" "length p1 = 20" "last p1 \<noteq> JNull"
    and c2: "c2 = cursor_query (heap s ! query) (js_get (last p1) ''token'')"
    and h2: "httpRequest hst w1 (spreedlyApiRequest_options hst m ep b c2) = (Inr r2, w2)"
    and p2: "js_get r2 pn = Some (JArr p2)" "length p2 = 20" "last p2 \<noteq> JNull"
    and c3: "c3 = cursor_query (heap s ! query) (js_get (last p2) ''token'')"
    and h3: "httpRequest hst w2 (spreedlyApiRequest_options hst m ep b c3) = (Inr r3, w3)"
    and p3: "js_get r3 pn = Some (JArr p3)" "length p3 = 7" "last p3 \<noteq> JNull"
  shows "spreedlyApiRequestAllItems hst m ep pn b query s =
           Some (Inr (p1 @ p2 @ p3),
                 s \<lparr> heap := heap s @ [c1, c2, c3], world := w3,
                     requests := requests s @ map (spreedlyApiRequest_options hst m ep b) [c1, c2, c3] \<rparr>)"
proof -
  let ?s1 = "s \<lparr> heap := heap s @ [c1], world := w1,
                 requests := requests s @ [spreedlyApiRequest_options hst m ep b c1] \<rparr>"
  let ?s2 = "?s1 \<lparr> heap := heap ?s1 @ [c2], world := w2,
                 requests := requests ?s1 @ [spreedlyApiRequest_options hst m ep b c2] \<rparr>"
  let ?s3 = "?s2 \<lparr> heap := heap ?s2 @ [c3], world := w3,
                 requests := requests ?s2 @ [spreedlyApiRequest_options hst m ep b c3] \<rparr>"
  have ne: "p1 \<noteq> []" "p2 \<noteq> []" "p3 \<noteq> []" using p1 p2 p3 by auto
  have pass1: "paginated_pass hst m ep pn b query [] None s
                 = (Again p1 (js_get (last p1) ''token''), ?s1)"
    using paginated_pass_page [of hst s m ep b query None r1 w1 pn p1 "[]"] h1 p1 ne c1
    by (simp add: cursor_query_def)
  have pass2: "paginated_pass hst m ep pn b query p1 (js_get (last p1) ''token'') ?s1
                 = (Again (p1 @ p2) (js_get (last p2) ''token''), ?s2)"
    using paginated_pass_page [of hst ?s1 m ep b query "js_get (last p1) ''token''" r2 w2 pn p2 p1]
      h2 p2 ne c2 q
    by (simp add: nth_append)
  have pass3: "paginated_pass hst m ep pn b query (p1 @ p2) (js_get (last p2) ''token'') ?s2
                 = (Return (p1 @ p2 @ p3), ?s3)"
    using paginated_pass_page [of hst ?s2 m ep b query "js_get (last p2) ''token''" r3 w3 pn p3 "p1 @ p2"]
      h3 p3 ne c3 q
    by (simp add: nth_append)
  have "spreedlyApiRequestAllItems hst m ep pn b query s = Some (Inr (p1 @ p2 @ p3), ?s3)"
    unfolding spreedlyApiRequestAllItems_def
    by (subst paginated_loop.simps, simp only: pass1 prod.case pass.case,
        subst paginated_loop.simps, simp only: pass2 prod.case pass.case,
        subst paginated_loop.simps, simp only: pass3 prod.case pass.case)
  then show ?thesis by simp
qed

text \<open>
  Claim C1. Let the transport answer the collector's requests, in order, with three
  pages \<open>p1\<close>, \<open>p2\<close>, \<open>p3\<close> of 20, 20 and 7 resources (the last element of a page
  is a resource, not \<open>null\<close>). Then the collector returns the 47 items
  \<open>p1 @ p2 @ p3\<close>, in the order the server gave them, and has sent exactly three
  requests: the first with the caller's query, the second and third with the cursor set
  to the \<open>token\<close> field of the last element of the page before. And in any state, a
  page whose length is not exactly 20 ends the loop with that pass.
\<close>

theorem collector_three_pages:
  "(query < length (heap s)
      \<and> httpRequest hst (world s) (spreedlyApiRequest_options hst m ep b (heap s ! query))
          = (Inr r1, w1)
      \<and> js_get r1 pn = Some (JArr p1) \<and> length p1 = 20 \<and> last p1 \<noteq> JNull
      \<and> httpRequest hst w1 (spreedlyApiRequest_options hst m ep b
            (cursor_query (heap s ! query) (js_get (last p1) ''token'')))
          = (Inr r2, w2)
      \<and> js_get r2 pn = Some (JArr p2) \<and> length p2 = 20 \<and> last p2 \<noteq> JNull
      \<and> httpRequest hst w2 (spreedlyApiRequest_options hst m ep b
            (cursor_query (heap s ! query) (js_get (last p2) ''token'')))
          = (Inr r3, w3)
      \<and> js_get r3 pn = Some (JArr p3) \<and> length p3 = 7 \<and> last p3 \<noteq> JNull
    \<longrightarrow> spreedlyApiRequestAllItems hst m ep pn b query s =
          Some (Inr (p1 @ p2 @ p3),
                s \<lparr> heap := heap s @ [heap s ! query,
                                       cursor_query (heap s ! query) (js_get (last p1) ''token''),
                                       cursor_query (heap s ! query) (js_get (last p2) ''token'')],
                    world := w3,
                    requests := requests s @ map (spreedlyApiRequest_options hst m ep b)
                      [heap s ! query,
                       cursor_query (heap s ! query) (js_get (last p1) ''token''),
                       cursor_query (heap s ! query) (js_get (last p2) ''token'')] \<rparr>)
        \<and> length (p1 @ p2 @ p3) = 47)
   \<and> (httpRequest hst (world st)
          (spreedlyApiRequest_options hst m ep b (cursor_query (heap st ! query) tok)) = (Inr r, w)
      \<and> js_get r pn = Some (JArr p) \<and> length p \<noteq> 20 \<and> (p = [] \<or> last p \<noteq> JNull)
    \<longrightarrow> paginated_loop hst m ep pn b query rd tok st =
          Some (Inr (rd @ p),
                st \<lparr> heap := heap st @ [cursor_query (heap st ! query) tok], world := w,
                     requests := requests st @
                       [spreedlyApiRequest_options hst m ep b (cursor_query (heap st ! query) tok)] \<rparr>))"
proof (intro conjI impI)
  assume a: "query < length (heap s)
      \<and> httpRequest hst (world s) (spreedlyApiRequest_options hst m ep b (heap s ! query))
          = (Inr r1, w1)
      \<and> js_get r1 pn = Some (JArr p1) \<and> length p1 = 20 \<and> last p1 \<noteq> JNull
      \<and> httpRequest hst w1 (spreedlyApiRequest_options hst m ep b
            (cursor_query (heap s ! query) (js_get (last p1) ''token'')))
          = (Inr r2, w2)
      \<and> js_get r2 pn = Some (JArr p2) \<and> length p2 = 20 \<and> last p2 \<noteq> JNull
      \<and> httpRequest hst w2 (spreedlyApiRequest_options hst m ep b
            (cursor_query (heap s ! query) (js_get (last p2) ''token'')))
          = (Inr r3, w3)
      \<and> js_get r3 pn = Some (JArr p3) \<and> length p3 = 7 \<and> last p3 \<noteq> JNull"
  then show "spreedlyApiRequestAllItems hst m ep pn b query s =
          Some (Inr (p1 @ p2 @ p3),
                s \<lparr> heap := heap s @ [heap s ! query,
                                       cursor_query (heap s ! query) (js_get (last p1) ''token''),
                                       cursor_query (heap s ! query) (js_get (last p2) ''token'')],
                    world := w3,
                    requests := requests s @ map (spreedlyApiRequest_options hst m ep b)
                      [heap s ! query,
                       cursor_query (heap s ! query) (js_get (last p1) ''token''),
                       cursor_query (heap s ! query) (js_get (last p2) ''token'')] \<rparr>)"
    using three_pages_run [of query s "heap s ! query" hst m ep b r1 w1 pn p1 _ r2 w2 p2 _ r3 w3 p3]
    by simp
  from a show "length (p1 @ p2 @ p3) = 47" by simp
next
  assume "httpRequest hst (world st)
          (spreedlyApiRequest_options hst m ep b (cursor_query (heap st ! query) tok)) = (Inr r, w)
      \<and> js_get r pn = Some (JArr p) \<and> length p \<noteq> 20 \<and> (p = [] \<or> last p \<noteq> JNull)"
  then show "paginated_loop hst m ep pn b query rd tok st =
          Some (Inr (rd @ p),
                st \<lparr> heap := heap st @ [cursor_query (heap st ! query) tok], world := w,
                     requests := requests st @
                       [spreedlyApiRequest_options hst m ep b (cursor_query (heap st ! query) tok)] \<rparr>)"
    using paginated_loop_last_page [of hst st m ep b query tok r w pn p rd] by simp
qed

theorem collector_three_pages_witness:
  "spreedlyApiRequestAllItems list_host GET ''/transactions.json'' ''transactions'' [] 0 (start [])
     = Some (Inr (map resource [1..<48]),
             \<lparr> heap = [[], [], [(''since_token'', JStr ''20'')], [(''since_token'', JStr ''40'')]],
               world = (),
               requests = map (spreedlyApiRequest_options list_host GET ''/transactions.json'' [])
                 [[], [(''since_token'', JStr ''20'')], [(''since_token'', JStr ''40'')]] \<rparr>)
   \<and> length (map resource [1..<48]) = 47
   \<and> paginated_loop (fixed_host (Inr (JObj [(''transactions'', JArr (map resource [1..<6]))])))
         GET ''/transactions.json'' ''transactions'' [] 0 [] None (start [])
       = Some (Inr (map resource [1..<6]),
               \<lparr> heap = [[], []], world = (),
                 requests = [spreedlyApiRequest_options
                   (fixed_host (Inr (JObj [(''transactions'', JArr (map resource [1..<6]))])))
                   GET ''/transactions.json'' [] []] \<rparr>)"
proof -
  note run = collector_three_pages [where query = 0 and s = "start []" and hst = list_host
        and m = GET and ep = "''/transactions.json''" and b = "[]" and pn = "''transactions''"
        and ?r1.0 = "JObj [(''transactions'', JArr (map resource [1..<21]))]" and ?w1.0 = "()"
        and ?p1.0 = "map resource [1..<21]"
        and ?r2.0 = "JObj [(''transactions'', JArr (map resource [21..<41]))]" and ?w2.0 = "()"
        and ?p2.0 = "map resource [21..<41]"
        and ?r3.0 = "JObj [(''transactions'', JArr (map resource [41..<48]))]" and ?w3.0 = "()"
        and ?p3.0 = "map resource [41..<48]", THEN conjunct1, THEN mp]
  have pages: "map resource [1..<21] @ map resource [21..<41] @ map resource [41..<48]
                 = map resource [1..<48]"
    by code_simp
  have tok: "js_get (last (map resource [1..<21])) ''token'' = Some (JStr ''20'')"
    "js_get (last (map resource [21..<41])) ''token'' = Some (JStr ''40'')"
    by code_simp+
  have q: "heap (start []) ! 0 = []"
    by (simp add: start_def)
  have cq: "cursor_query [] (Some (JStr ''20'')) = [(''since_token'', JStr ''20'')]"
       "cursor_query [] (Some (JStr ''40'')) = [(''since_token'', JStr ''40'')]"
    by (simp_all add: cursor_query_def)
  have "spreedlyApiRequestAllItems list_host GET ''/transactions.json'' ''transactions'' [] 0 (start [])
     = Some (Inr (map resource [1..<21] @ map resource [21..<41] @ map resource [41..<48]),
             start [] \<lparr> heap := heap (start []) @
                 [heap (start []) ! 0,
                  cursor_query (heap (start []) ! 0) (js_get (last (map resource [1..<21])) ''token''),
                  cursor_query (heap (start []) ! 0) (js_get (last (map resource [21..<41])) ''token'')],
               world := (),
               requests := requests (start []) @
                 map (spreedlyApiRequest_options list_host GET ''/transactions.json'' [])
                   [heap (start []) ! 0,
                    cursor_query (heap (start []) ! 0) (js_get (last (map resource [1..<21])) ''token''),
                    cursor_query (heap (start []) ! 0) (js_get (last (map resource [21..<41])) ''token'')] \<rparr>)
     \<and> length (map resource [1..<21] @ map resource [21..<41] @ map resource [41..<48]) = 47"
    by (rule run) code_simp
  then have three: "spreedlyApiRequestAllItems list_host GET ''/transactions.json'' ''transactions''
       [] 0 (start [])
     = Some (Inr (map resource [1..<48]),
             \<lparr> heap = [[], [], [(''since_token'', JStr ''20'')], [(''since_token'', JStr ''40'')]],
               world = (),
               requests = map (spreedlyApiRequest_options list_host GET ''/transactions.json'' [])
                 [[], [(''since_token'', JStr ''20'')], [(''since_token'', JStr ''40'')]] \<rparr>)
   \<and> length (map resource [1..<48]) = 47"
    unfolding tok q cq pages by (simp add: start_def)
  note last_page = collector_three_pages
      [where hst = "fixed_host (Inr (JObj [(''transactions'', JArr (map resource [1..<6]))]))"
        and m = GET and ep = "''/transactions.json''" and b = "[]" and pn = "''transactions''"
        and query = 0 and st = "start []" and tok = None and rd = "[]"
        and r = "JObj [(''transactions'', JArr (map resource [1..<6]))]" and w = "()"
        and p = "map resource [1..<6]", THEN conjunct2, THEN mp]
  have "paginated_loop (fixed_host (Inr (JObj [(''transactions'', JArr (map resource [1..<6]))])))
         GET ''/transactions.json'' ''transactions'' [] 0 [] None (start [])
       = Some (Inr ([] @ map resource [1..<6]),
               start [] \<lparr> heap := heap (start []) @ [cursor_query (heap (start []) ! 0) None],
                 world := (),
                 requests := requests (start []) @ [spreedlyApiRequest_options
                   (fixed_host (Inr (JObj [(''transactions'', JArr (map resource [1..<6]))])))
                   GET ''/transactions.json'' [] (cursor_query (heap (start []) ! 0) None)] \<rparr>)"
    by (rule last_page) code_simp
  then have one: "paginated_loop (fixed_host (Inr (JObj [(''transactions'', JArr (map resource [1..<6]))])))
         GET ''/transactions.json'' ''transactions'' [] 0 [] None (start [])
       = Some (Inr (map resource [1..<6]),
               \<lparr> heap = [[], []], world = (),
                 requests = [spreedlyApiRequest_options
                   (fixed_host (Inr (JObj [(''transactions'', JArr (map resource [1..<6]))])))
                   GET ''/transactions.json'' [] []] \<rparr>)"
    by (simp add: start_def cursor_query_def)
  from three one show ?thesis by (simp only: simp_thms)
qed

subsection \<open>A value that is not an array\<close>

lemma push_items_not_array:
  "(\<And>xs. v \<noteq> Some (JArr xs)) \<Longrightarrow> push_items v rd tok = Inr (rd, tok)"
  by (cases "(v, rd, tok)" rule: push_items.cases) auto

text \<open>When the value at \<open>propertyName\<close> is absent or not an array, and its \<open>length\<close>
  is not the number 20, the pass appends nothing, throws nothing and ends the loop.\<close>

lemma paginated_loop_not_array:
  assumes h: "httpRequest hst (world s)
                (spreedlyApiRequest_options hst m ep b (cursor_query (heap s ! query) tok)) = (Inr r, w')"
    and r: "r \<noteq> JNull"
    and na: "\<And>xs. js_get r pn \<noteq> Some (JArr xs)"
    and len: "js_chain (js_get r pn) ''length'' \<noteq> Some (JNum 20)"
  shows "paginated_loop hst m ep pn b query rd tok s =
     Some (Inr rd,
       s \<lparr> heap := heap s @ [cursor_query (heap s ! query) tok], world := w',
           requests := requests s @
             [spreedlyApiRequest_options hst m ep b (cursor_query (heap s ! query) tok)] \<rparr>)"
proof -
  have rd: "js_read r pn = Inr (js_get r pn)" using r by (cases r) simp_all
  have "paginated_pass hst m ep pn b query rd tok s =
     (Return rd,
       s \<lparr> heap := heap s @ [cursor_query (heap s ! query) tok], world := w',
           requests := requests s @
             [spreedlyApiRequest_options hst m ep b (cursor_query (heap s ! query) tok)] \<rparr>)"
    unfolding paginated_pass_def spread_copy_def Let_def prod.case pass_query
    using h len by (simp add: spreedlyApiRequest_ok rd push_items_not_array [OF na] del: push_items.simps)
  then show ?thesis by (subst paginated_loop.simps) simp
qed

text \<open>A string of 20 characters is not an array, yet its \<open>length\<close> is 20: the loop
  test lets the loop go on, with the items and the cursor as they were.\<close>

lemma malformed_pass:
  "fst (paginated_pass (fixed_host (Inr malformed_page)) m ep ''transactions'' b q rd tok s)
     = Again rd tok"
  unfolding paginated_pass_def spread_copy_def Let_def prod.case pass_query
  by (simp add: spreedlyApiRequest_def fixed_host_def malformed_page_def Let_def)

lemma malformed_loop_never_returns:
  assumes "paginated_loop hst m ep pn b query rd tok s = Some y"
  shows "\<not> (hst = fixed_host (Inr malformed_page) \<and> pn = ''transactions'')"
proof (rule paginated_loop.raw_induct
    [where P = "\<lambda>hst m ep pn b query rd tok s y.
       \<not> (hst = fixed_host (Inr malformed_page) \<and> pn = ''transactions'')",
     OF _ assms])
  fix loop :: "unit host \<Rightarrow> IHttpRequestMethods \<Rightarrow> string \<Rightarrow> string \<Rightarrow> IDataObject \<Rightarrow> nat
                 \<Rightarrow> json list \<Rightarrow> json option \<Rightarrow> unit state \<Rightarrow> ((thrown + json list) \<times> unit state) option"
    and hst m ep pn b query rd tok s y
  assume IH: "\<And>hst m ep pn b query rd tok s y. loop hst m ep pn b query rd tok s = Some y \<Longrightarrow>
      \<not> (hst = fixed_host (Inr malformed_page) \<and> pn = ''transactions'')"
    and step: "(case paginated_pass hst m ep pn b query rd tok s of
                  (Throw e, s') \<Rightarrow> Some (Inl e, s')
                | (Return returnData', s') \<Rightarrow> Some (Inr returnData', s')
                | (Again returnData' sinceToken', s') \<Rightarrow>
                    loop hst m ep pn b query returnData' sinceToken' s') = Some y"
  show "\<not> (hst = fixed_host (Inr malformed_page) \<and> pn = ''transactions'')"
  proof
    assume a: "hst = fixed_host (Inr malformed_page) \<and> pn = ''transactions''"
    obtain p s1 where pass: "paginated_pass hst m ep pn b query rd tok s = (p, s1)"
      by (cases "paginated_pass hst m ep pn b query rd tok s")
    with a malformed_pass [of m ep b query rd tok s] have "p = Again rd tok" by simp
    with step pass have "loop hst m ep pn b query rd tok s1 = Some y" by simp
    from IH [OF this] a show False by simp
  qed
qed

text \<open>
  Claim C3, at the input where the code departs from it. The response
  \<open>{ transactions: "aaaaaaaaaaaaaaaaaaaa" }\<close> holds no array at \<open>transactions\<close>. The
  first pass appends nothing and throws nothing, but it does not end the loop: it asks
  for another pass with the same (unset) cursor. Against a service that keeps giving
  this answer the collector sends the same request again and again and never returns.
\<close>

theorem collector_non_array_length_20:
  "paginated_pass (fixed_host (Inr malformed_page)) GET ''/transactions.json'' ''transactions''
       [] 0 [] None (start [])
     = (Again [] None,
        \<lparr> heap = [[], []], world = (),
          requests = [spreedlyApiRequest_options (fixed_host (Inr malformed_page)) GET
                        ''/transactions.json'' [] []] \<rparr>)
   \<and> spreedlyApiRequestAllItems (fixed_host (Inr malformed_page)) GET ''/transactions.json''
        ''transactions'' [] 0 (start []) = None"
proof -
  have "paginated_pass (fixed_host (Inr malformed_page)) GET ''/transactions.json'' ''transactions''
       [] 0 [] None (start [])
     = (Again [] None,
        \<lparr> heap = [[], []], world = (),
          requests = [spreedlyApiRequest_options (fixed_host (Inr malformed_page)) GET
                        ''/transactions.json'' [] []] \<rparr>)"
    unfolding paginated_pass_def spread_copy_def Let_def prod.case pass_query
    by (simp add: spreedlyApiRequest_def fixed_host_def malformed_page_def Let_def start_def
        cursor_query_def)
  moreover have "spreedlyApiRequestAllItems (fixed_host (Inr malformed_page)) GET
      ''/transactions.json'' ''transactions'' [] 0 (start []) = None"
    unfolding spreedlyApiRequestAllItems_def
    using malformed_loop_never_returns
      [of "fixed_host (Inr malformed_page)" GET "''/transactions.json''" "''transactions''"
          "[]" 0 "[]" None "start []"]
    by (cases "paginated_loop (fixed_host (Inr malformed_page)) GET ''/transactions.json''
          ''transactions'' [] 0 [] None (start [])") auto
  ultimately show ?thesis by simp
qed

subsection \<open>The caller's query\<close>

lemma first_request_sent:
  assumes "spreedlyApiRequestAllItems hst m ep pn b query s = Some (r, s')"
  shows "\<exists>rest. requests s' = requests s @ spreedlyApiRequest_options hst m ep b (heap s ! query) # rest"
proof -
  obtain p s1 where pass: "paginated_pass hst m ep pn b query [] None s = (p, s1)"
    by (cases "paginated_pass hst m ep pn b query [] None s")
  from paginated_pass_state [of hst m ep pn b query "[]" None s] pass
  have s1: "requests s1 = requests s @ [spreedlyApiRequest_options hst m ep b (heap s ! query)]"
    by (auto simp add: cursor_query_def)
  from assms have loop: "(case paginated_pass hst m ep pn b query [] None s of
                  (Throw e, s') \<Rightarrow> Some (Inl e, s')
                | (Return returnData', s') \<Rightarrow> Some (Inr returnData', s')
                | (Again returnData' sinceToken', s') \<Rightarrow>
                    paginated_loop hst m ep pn b query returnData' sinceToken' s') = Some (r, s')"
    unfolding spreedlyApiRequestAllItems_def by (subst (asm) paginated_loop.simps) simp
  show ?thesis
  proof (cases p)
    case (Throw e)
    with loop pass s1 show ?thesis by auto
  next
    case (Return xs)
    with loop pass s1 show ?thesis by auto
  next
    case (Again rd' tok')
    with loop pass have "paginated_loop hst m ep pn b query rd' tok' s1 = Some (r, s')" by simp
    from paginated_loop_grows [OF this] s1 show ?thesis by auto
  qed
qed

text \<open>
  Claim C10, as amended. The collector never writes to the caller's query mapping.
  Every pass allocates a new object, the copy of the caller's query, adds
  \<open>since_token\<close> to that copy alone (when the cursor is truthy) and sends it; all
  objects that existed before the pass are as they were. So when the collector returns,
  the caller's query is unchanged. The first request carries the caller's query as it
  is: the collector adds no \<open>since_token\<close> to it, so it has that parameter only if the
  caller's query has it.
\<close>

theorem collector_query_untouched:
  "(\<exists>w'. snd (paginated_pass hst m ep pn b query rd tok s) =
       s \<lparr> heap := heap s @ [cursor_query (heap s ! query) tok], world := w',
           requests := requests s @
             [spreedlyApiRequest_options hst m ep b (cursor_query (heap s ! query) tok)] \<rparr>)
   \<and> cursor_query (heap s ! query) None = heap s ! query
   \<and> (spreedlyApiRequestAllItems hst m ep pn b query s = Some (r, s') \<and> query < length (heap s)
      \<longrightarrow> heap s' ! query = heap s ! query
        \<and> take (length (heap s)) (heap s') = heap s
        \<and> (\<exists>rest. requests s' =
              requests s @ spreedlyApiRequest_options hst m ep b (heap s ! query) # rest))"
proof (intro conjI impI)
  show "\<exists>w'. snd (paginated_pass hst m ep pn b query rd tok s) =
       s \<lparr> heap := heap s @ [cursor_query (heap s ! query) tok], world := w',
           requests := requests s @
             [spreedlyApiRequest_options hst m ep b (cursor_query (heap s ! query) tok)] \<rparr>"
    by (rule paginated_pass_state)
  show "cursor_query (heap s ! query) None = heap s ! query"
    by (simp add: cursor_query_def)
next
  assume a: "spreedlyApiRequestAllItems hst m ep pn b query s = Some (r, s') \<and> query < length (heap s)"
  then have "paginated_loop hst m ep pn b query [] None s = Some (r, s')"
    by (simp add: spreedlyApiRequestAllItems_def)
  from paginated_loop_grows [OF this] obtain cells where cells: "heap s' = heap s @ cells"
    by auto
  with a show "heap s' ! query = heap s ! query" by (simp add: nth_append)
  from cells show "take (length (heap s)) (heap s') = heap s" by simp
  from a first_request_sent [of hst m ep pn b query s r s']
  show "\<exists>rest. requests s' =
              requests s @ spreedlyApiRequest_options hst m ep b (heap s ! query) # rest"
    by simp
qed

theorem collector_query_untouched_witness:
  "spreedlyApiRequestAllItems list_host GET ''/transactions.json'' ''transactions'' [] 0
       (start [(''order'', JStr ''desc'')])
     = Some (Inr (map resource [1..<48]),
         \<lparr> heap = [[(''order'', JStr ''desc'')],
                   [(''order'', JStr ''desc'')],
                   [(''order'', JStr ''desc''), (''since_token'', JStr ''20'')],
                   [(''order'', JStr ''desc''), (''since_token'', JStr ''40'')]],
           world = (),
           requests = map (spreedlyApiRequest_options list_host GET ''/transactions.json'' [])
             [[(''order'', JStr ''desc'')],
              [(''order'', JStr ''desc''), (''since_token'', JStr ''20'')],
              [(''order'', JStr ''desc''), (''since_token'', JStr ''40'')]] \<rparr>)
   \<and> heap \<lparr> heap = [[(''order'', JStr ''desc'')],
                   [(''order'', JStr ''desc'')],
                   [(''order'', JStr ''desc''), (''since_token'', JStr ''20'')],
                   [(''order'', JStr ''desc''), (''since_token'', JStr ''40'')]],
           world = (),
           requests = map (spreedlyApiRequest_options list_host GET ''/transactions.json'' [])
             [[(''order'', JStr ''desc'')],
              [(''order'', JStr ''desc''), (''since_token'', JStr ''20'')],
              [(''order'', JStr ''desc''), (''since_token'', JStr ''40'')]] \<rparr> ! 0
       = heap (start [(''order'', JStr ''desc'')]) ! 0"
proof -
  let ?s' = "\<lparr> heap = [[(''order'', JStr ''desc'')],
                   [(''order'', JStr ''desc'')],
                   [(''order'', JStr ''desc''), (''since_token'', JStr ''20'')],
                   [(''order'', JStr ''desc''), (''since_token'', JStr ''40'')]],
           world = (),
           requests = map (spreedlyApiRequest_options list_host GET ''/transactions.json'' [])
             [[(''order'', JStr ''desc'')],
              [(''order'', JStr ''desc''), (''since_token'', JStr ''20'')],
              [(''order'', JStr ''desc''), (''since_token'', JStr ''40'')]] \<rparr>"
  have run: "spreedlyApiRequestAllItems list_host GET ''/transactions.json'' ''transactions'' [] 0
       (start [(''order'', JStr ''desc'')])
     = Some (Inr (map resource [1..<48]), ?s')"
    by code_simp
  have q: "0 < length (heap (start [(''order'', JStr ''desc'')]))"
    by (simp add: start_def)
  from collector_query_untouched
         [where hst = list_host and m = GET and ep = "''/transactions.json''"
            and pn = "''transactions''" and b = "[]" and query = 0
            and s = "start [(''order'', JStr ''desc'')]" and r = "Inr (map resource [1..<48])"
            and s' = ?s', THEN conjunct2, THEN conjunct2, THEN mp, OF conjI [OF run q]]
  have "heap ?s' ! 0 = heap (start [(''order'', JStr ''desc'')]) ! 0"
    by (rule conjunct1)
  with run show ?thesis by (rule conjI)
qed

text \<open>The claim as first stated fails in its last part: when the caller's query
  already holds a \<open>since_token\<close>, the first request carries it.\<close>

theorem first_request_since_token_counterexample:
  "spreedlyApiRequestAllItems (fixed_host (Inr (JObj [(''gateways'', JArr [])]))) GET ''/gateways.json''
       ''gateways'' [] 0 (start [(''since_token'', JStr ''X'')])
     = Some (Inr [],
         \<lparr> heap = [[(''since_token'', JStr ''X'')], [(''since_token'', JStr ''X'')]],
           world = (),
           requests = [spreedlyApiRequest_options (fixed_host (Inr (JObj [(''gateways'', JArr [])])))
                         GET ''/gateways.json'' [] [(''since_token'', JStr ''X'')]] \<rparr>)
   \<and> qs (spreedlyApiRequest_options (fixed_host (Inr (JObj [(''gateways'', JArr [])])))
            GET ''/gateways.json'' [] [(''since_token'', JStr ''X'')])
       = Some [(''since_token'', JStr ''X'')]"
  by code_simp

section \<open>Key-Case Codec\<close>

lemma camelToSnake_Cons:
  "camelToSnake (c # cs) =
     (if is_upper c then CHR ''_'' # toLowerCase c # camelToSnake cs else c # camelToSnake cs)"
  by (simp add: camelToSnake_def)

lemma camelToSnake_Nil: "camelToSnake [] = []"
  by (simp add: camelToSnake_def)

lemma upper_lower: "is_upper c \<Longrightarrow> is_lower (toLowerCase c) \<and> toUpperCase (toLowerCase c) = c"
  by (simp add: is_upper_def is_lower_def toLowerCase_def toUpperCase_def)

lemma upper_not_lower: "is_upper c \<Longrightarrow> \<not> is_lower c \<and> c \<noteq> CHR ''_''"
  by (auto simp add: is_upper_def is_lower_def)

text \<open>A character that is not an upper-case letter stays where it is, unless it is an
  underscore before a lowercase letter.\<close>

lemma snakeToCamel_keep:
  "\<not> (c = CHR ''_'' \<and> cs \<noteq> [] \<and> is_lower (hd cs)) \<Longrightarrow> \<not> is_upper c \<Longrightarrow>
   snakeToCamel (c # camelToSnake cs) = c # snakeToCamel (camelToSnake cs)"
  by (cases cs) (auto simp add: camelToSnake_Cons camelToSnake_Nil upper_not_lower is_lower_def)

lemma snake_camel_round_trip:
  "\<not> snake_boundary k \<Longrightarrow> snakeToCamel (camelToSnake k) = k"
proof (induction k)
  case Nil
  then show ?case by (simp add: camelToSnake_Nil)
next
  case (Cons c cs)
  have nb: "\<not> snake_boundary cs" using Cons.prems by (cases cs) auto
  show ?case
  proof (cases "is_upper c")
    case True
    then show ?thesis using Cons.IH [OF nb] by (simp add: camelToSnake_Cons upper_lower)
  next
    case False
    have "\<not> (c = CHR ''_'' \<and> cs \<noteq> [] \<and> is_lower (hd cs))"
      using Cons.prems by (cases cs) auto
    then show ?thesis
      using False Cons.IH [OF nb] snakeToCamel_keep [of c cs] by (simp add: camelToSnake_Cons)
  qed
qed

text \<open>The condition is the exact one: an underscore before a lowercase letter is
  swallowed, and the round trip comes back shorter.\<close>

lemma round_trip_length:
  "length (snakeToCamel (camelToSnake k)) \<le> length k
   \<and> (snake_boundary k \<longrightarrow> length (snakeToCamel (camelToSnake k)) < length k)"
proof (induction k rule: length_induct)
  case (1 k)
  show ?case
  proof (cases k)
    case Nil
    then show ?thesis by (simp add: camelToSnake_Nil)
  next
    case (Cons c cs)
    have IHcs: "length (snakeToCamel (camelToSnake cs)) \<le> length cs
                \<and> (snake_boundary cs \<longrightarrow> length (snakeToCamel (camelToSnake cs)) < length cs)"
      using 1 Cons by simp
    show ?thesis
    proof (cases "is_upper c")
      case True
      have "snake_boundary (c # cs) = snake_boundary cs"
        using upper_not_lower [OF True] by (cases cs) auto
      with True IHcs Cons show ?thesis by (simp add: camelToSnake_Cons upper_lower)
    next
      case False
      show ?thesis
      proof (cases "c = CHR ''_'' \<and> cs \<noteq> [] \<and> is_lower (hd cs)")
        case True
        then obtain d ds where cs: "cs = d # ds" and d: "is_lower d" and c: "c = CHR ''_''"
          by (cases cs) auto
        have nu: "\<not> is_upper d" using d by (auto simp add: is_upper_def is_lower_def)
        have "length (snakeToCamel (camelToSnake ds)) \<le> length ds"
          using 1 Cons cs by simp
        with False c d nu cs Cons show ?thesis by (simp add: camelToSnake_Cons)
      next
        case nb: False
        then have "snake_boundary (c # cs) = snake_boundary cs"
          by (cases cs) auto
        with False nb IHcs Cons snakeToCamel_keep [of c cs] show ?thesis
          by (simp add: camelToSnake_Cons)
      qed
    qed
  qed
qed

lemma round_trip_only_if:
  "snakeToCamel (camelToSnake k) = k \<Longrightarrow> \<not> snake_boundary k"
  using round_trip_length [of k] by auto

text \<open>
  Claim C8. For every string \<open>k\<close> whose underscores and camel boundaries are
  consistent with the conversion rules, that is, in which no underscore stands directly
  before a lowercase letter (every identifier of lowercase letters with camel-case
  boundaries is one), \<open>toCamel(toSnake(k)) = k\<close>; and for no other string. And
  \<open>payment_method_token\<close> and \<open>paymentMethodToken\<close> convert to each other.
\<close>

theorem key_case_round_trip:
  "(snakeToCamel (camelToSnake k) = k) = (\<not> snake_boundary k)
   \<and> snakeToCamel ''payment_method_token'' = ''paymentMethodToken''
   \<and> camelToSnake ''paymentMethodToken'' = ''payment_method_token''"
proof (intro conjI)
  show "(snakeToCamel (camelToSnake k) = k) = (\<not> snake_boundary k)"
    using snake_camel_round_trip [of k] round_trip_only_if [of k] by blast
  show "snakeToCamel ''payment_method_token'' = ''paymentMethodToken''" by code_simp
  show "camelToSnake ''paymentMethodToken'' = ''payment_method_token''" by code_simp
qed

theorem key_case_round_trip_witness:
  "\<not> snake_boundary ''paymentMethodToken''
   \<and> snakeToCamel (camelToSnake ''paymentMethodToken'') = ''paymentMethodToken''"
proof -
  have nb: "\<not> snake_boundary ''paymentMethodToken''" by code_simp
  from key_case_round_trip [of "''paymentMethodToken''", THEN conjunct1, THEN iffD2, OF nb] nb
  show ?thesis by (rule conjI [rotated])
qed

text \<open>The identifiers of the unit tests.\<close>

lemma key_case_tests:
  "snakeToCamel ''gateway_type'' = ''gatewayType''"
  "camelToSnake ''gatewayType'' = ''gateway_type''"
  by code_simp+

section \<open>Card number check\<close>

lemma luhn_checksum_head: "luhn_checksum (a # ds) = a + luhn_checksum (0 # ds)"
  by (cases ds) simp_all

text \<open>The loop, run down from position \<open>n\<close>, adds the checksum of the first \<open>n\<close>
  digits read from the right; when it starts on a digit to double, that is the checksum
  with one more digit to the right.\<close>

lemma luhn_loop_checksum:
  "n \<le> length digits \<Longrightarrow>
   luhn_loop digits n acc isEven =
     acc + luhn_checksum ((if isEven then [0] else []) @ rev (map digit_value (take n digits)))"
proof (induction n arbitrary: acc isEven)
  case 0
  then show ?case by simp
next
  case (Suc n)
  then have n: "n < length digits" "n \<le> length digits" by simp_all
  have tk: "rev (map digit_value (take (Suc n) digits))
              = digit_value (digits ! n) # rev (map digit_value (take n digits))"
    using n by (simp add: take_Suc_conv_app_nth)
  show ?case
  proof (cases isEven)
    case True
    then show ?thesis
      using Suc.IH [OF n(2)] tk by (simp add: Let_def mult.commute)
  next
    case False
    then show ?thesis
      using Suc.IH [OF n(2)] tk luhn_checksum_head [of "digit_value (digits ! n)"]
      by (simp add: Let_def)
  qed
qed

text \<open>
  Claim C9. \<open>isValidCreditCardNumber\<close> strips every character that is not a digit,
  answers false when fewer than 13 or more than 19 digits remain, and otherwise answers
  true exactly when the Luhn checksum of the digits (every second digit from the right
  doubled, 9 taken off a doubled digit above 9, all summed) is divisible by 10.
\<close>

theorem isValidCreditCardNumber_luhn:
  "isValidCreditCardNumber cardNumber = card_number_valid cardNumber"
  by (auto simp add: isValidCreditCardNumber_def card_number_valid_def Let_def luhn_loop_checksum)

text \<open>The card numbers of the unit tests.\<close>

lemma isValidCreditCardNumber_tests:
  "isValidCreditCardNumber ''4111111111111111''"
  "isValidCreditCardNumber ''5500000000000004''"
  "\<not> isValidCreditCardNumber ''1234567890123456''"
  "\<not> isValidCreditCardNumber ''123''"
  "\<not> isValidCreditCardNumber ''''"
  by code_simp+

section \<open>Amount Codec\<close>

lemma round_half_even_error: "\<bar>of_int (round_half_even y) - y\<bar> \<le> 1 / 2"
proof -
  have "of_int \<lfloor>y\<rfloor> \<le> y" "y < of_int \<lfloor>y\<rfloor> + 1" by linarith+
  then show ?thesis
    by (auto simp add: round_half_even_def Let_def)
qed

text \<open>\<open>floor_log2\<close> is the binary exponent.\<close>

lemma floor_log2_bounds:
  assumes "0 < x"
  shows "2 powi floor_log2 x \<le> x \<and> x < 2 powi (floor_log2 x + 1)"
proof -
  obtain p q where pq: "quotient_of x = (p, q)" by (cases "quotient_of x")
  then have q: "0 < q" and x: "x = of_int p / of_int q"
    by (simp_all add: quotient_of_denom_pos quotient_of_div)
  with assms have p: "0 < p" by (simp add: zero_less_divide_iff)
  define a where "a = nat (bitlen p - 1)"
  define c where "c = nat (bitlen q - 1)"
  have "bitlen p \<noteq> 0" "bitlen q \<noteq> 0"
    using p q by (simp_all add: bitlen_eq_zero_iff)
  then have b1: "1 \<le> bitlen p" "1 \<le> bitlen q"
    using bitlen_nonneg [of p] bitlen_nonneg [of q] by linarith+
  then have bp: "bitlen p = int a + 1" and bq: "bitlen q = int c + 1"
    by (simp_all add: a_def c_def)
  have pb: "2 ^ a \<le> p" "p < 2 * 2 ^ a" and qb: "2 ^ c \<le> q" "q < 2 * 2 ^ c"
    using bitlen_bounds [OF p] bitlen_bounds [OF q] bp bq
    by (simp_all add: nat_add_distrib)
  have l: "bitlen p - bitlen q = int a - int c" using bp bq by simp
  have pw: "(2::rat) powi (int a - int c) = 2 ^ a / 2 ^ c"
    by (simp add: power_int_diff)
  have pr: "(2::rat) ^ a \<le> of_int p" "of_int p < (2::rat) * 2 ^ a"
    "(2::rat) ^ c \<le> of_int q" "of_int q < (2::rat) * 2 ^ c"
  proof -
    have "(of_int (2 ^ a) :: rat) \<le> of_int p" "(of_int p :: rat) < of_int (2 * 2 ^ a)"
      "(of_int (2 ^ c) :: rat) \<le> of_int q" "(of_int q :: rat) < of_int (2 * 2 ^ c)"
      using pb qb by (simp_all only: of_int_le_iff of_int_less_iff)
    then show "(2::rat) ^ a \<le> of_int p" "of_int p < (2::rat) * 2 ^ a"
      "(2::rat) ^ c \<le> of_int q" "of_int q < (2::rat) * 2 ^ c"
      by simp_all
  qed
  have qpos: "(0::rat) < of_int q" "(0::rat) < of_int p" using p q by simp_all
  have up: "x < 2 * (2 ^ a / 2 ^ c)"
  proof -
    have "of_int p * (2::rat) ^ c \<le> of_int p * of_int q"
      using pr qpos by (intro mult_left_mono) simp_all
    also have "\<dots> < (2 * 2 ^ a) * of_int q"
      using pr qpos by (intro mult_strict_right_mono) simp_all
    finally show ?thesis using qpos by (simp add: x field_simps)
  qed
  have lo: "2 ^ a / 2 ^ c / 2 < x"
  proof -
    have "(2::rat) ^ a * of_int q < 2 ^ a * (2 * 2 ^ c)"
      using pr by (intro mult_strict_left_mono) simp_all
    also have "\<dots> \<le> of_int p * (2 * 2 ^ c)"
      using pr by (intro mult_right_mono) simp_all
    finally show ?thesis using qpos by (simp add: x field_simps)
  qed
  have l1: "(2::rat) powi (int a - int c + 1) = 2 * (2 ^ a / 2 ^ c)"
    by (simp add: power_int_add pw)
  have l2: "(2::rat) powi (int a - int c - 1) = 2 ^ a / 2 ^ c / 2"
    using power_int_diff [of "2::rat" "int a - int c" 1] by (simp add: pw)
  show ?thesis
  proof (cases "(2::rat) powi (int a - int c) \<le> x")
    case True
    then have "floor_log2 x = int a - int c"
      by (simp add: floor_log2_def pq l)
    with True up show ?thesis by (simp add: l1)
  next
    case False
    then have "floor_log2 x = int a - int c - 1"
      by (simp add: floor_log2_def pq l)
    with False lo show ?thesis by (simp add: l2)
  qed
qed


lemma floor_log2_less:
  assumes "0 < x" "x < 2 powi n"
  shows "floor_log2 x < n"
proof (rule ccontr)
  assume "\<not> floor_log2 x < n"
  then have "(2::rat) powi n \<le> 2 powi floor_log2 x"
    by (intro power_int_increasing) simp_all
  with floor_log2_bounds [OF assms(1)] assms(2) show False by simp
qed

lemma floor_log2_ge:
  assumes "0 < x" "2 powi n \<le> x"
  shows "n \<le> floor_log2 x"
proof (rule ccontr)
  assume "\<not> n \<le> floor_log2 x"
  then have "(2::rat) powi (floor_log2 x + 1) \<le> 2 powi n"
    by (intro power_int_increasing) simp_all
  with floor_log2_bounds [OF assms(1)] assms(2) show False by simp
qed

text \<open>In the range of the amounts no exponent is subnormal and nothing overflows: the
  rounded value is within half a unit of the last place.\<close>

lemma round_magnitude_error:
  assumes lo: "1 / 128 \<le> x" and hi: "x < 2 powi n" and n: "n \<le> 1000"
  shows "\<exists>y. round_magnitude x = Finite y \<and> \<bar>y - x\<bar> \<le> 2 powi (n - 54)"
proof -
  have pos: "0 < x" using lo by simp
  define e where "e = floor_log2 x - 52"
  have "(2::rat) powi (- 7) \<le> x" using lo by simp
  then have ge: "- 7 \<le> floor_log2 x" using pos by (rule floor_log2_ge [rotated])
  have lt: "floor_log2 x < n" using pos hi by (rule floor_log2_less)
  have emax: "max (floor_log2 x - 52) (- 1074) = e" using ge by (simp add: e_def)
  define m where "m = round_half_even (x / 2 powi e)"
  define y where "y = of_int m * (2::rat) powi e"
  have p2: "(0::rat) < 2 powi e" by simp
  have "y - x = (of_int m - x / 2 powi e) * 2 powi e"
    by (simp add: y_def left_diff_distrib)
  then have "\<bar>y - x\<bar> = \<bar>of_int m - x / 2 powi e\<bar> * 2 powi e"
    by (simp add: abs_mult)
  also have "\<dots> \<le> 1 / 2 * 2 powi e"
    using round_half_even_error [of "x / 2 powi e"] p2 unfolding m_def
    by (intro mult_right_mono) simp_all
  also have "\<dots> = 2 powi (e - 1)"
    using power_int_diff [of "2::rat" e 1] by simp
  also have "\<dots> \<le> 2 powi (n - 54)"
    using lt by (intro power_int_increasing) (simp_all add: e_def)
  finally have err: "\<bar>y - x\<bar> \<le> 2 powi (n - 54)" .
  have "(2::rat) powi (n - 54) \<le> 2 powi n"
    by (intro power_int_increasing) simp_all
  with err hi have "y < 2 * 2 powi n" by linarith
  also have "\<dots> = 2 powi (n + 1)" by (simp add: power_int_add)
  also have "\<dots> \<le> 2 powi 1001"
    using n by (intro power_int_increasing) simp_all
  also have "\<dots> < (2::rat) powi 1024"
    by (intro power_int_strict_increasing) simp_all
  finally have "\<not> overflow_threshold \<le> y" by (simp add: overflow_threshold_def)
  then have "round_magnitude x = Finite y"
    using pos unfolding round_magnitude_def emax Let_def m_def [symmetric] y_def [symmetric]
    by simp
  with err show ?thesis by blast
qed



text \<open>The threshold as a numeral, for evaluation.\<close>

lemma overflow_threshold_numeral [code]:
  "overflow_threshold = 179769313486231590772930519078902473361797697894230657273430081157732675805500963132708477322407536021120113879871393357658789768814416622492847430639474124377767893424865485276302219601246094119453082952085005768838150682342462881473913110540827237163350510684586298239947245938479716304835356329624224137216"
  by (simp add: overflow_threshold_def)

lemma literal_100: "literal 100 = Num False (Finite 100)"
  by code_simp

text \<open>
  Claim C7, as amended. Amounts are doubles. For every decimal amount \<open>a = k / 100\<close>
  (at most 2 fractional digits) with \<open>0.01 \<le> a < 35184372088832\<close> (that is \<open>2^45\<close>),
  read as the double nearest to it, \<open>toDecimal(toMinorUnits(a))\<close> is \<open>a\<close> again; and
  \<open>toMinorUnits(10.999)\<close> is \<open>1100\<close>. (The numbers here are positive and finite,
  where \<open>===\<close> is the identity of doubles.)
\<close>

theorem amount_round_trip:
  "(1 \<le> k \<and> k < 3518437208883200 \<longrightarrow>
      formatCentsToAmount (formatAmountInCents (literal (of_nat k / 100))) = literal (of_nat k / 100))
   \<and> formatAmountInCents (literal (10999 / 1000)) = literal 1100"
proof (intro conjI impI)
  assume k: "1 \<le> k \<and> k < 3518437208883200"
  define x :: rat where "x = of_nat k / 100"
  have "(of_nat 1 :: rat) \<le> of_nat k" "(of_nat k :: rat) < of_nat 3518437208883200"
    using k by (simp_all only: of_nat_le_iff of_nat_less_iff)
  then have kr: "1 \<le> (of_nat k :: rat)" "(of_nat k :: rat) < 3518437208883200"
    by simp_all
  have x1: "1 / 128 \<le> x" "x < 2 powi 45" "0 \<le> x"
    using kr by (simp_all add: x_def)
  from round_magnitude_error [OF x1(1,2)] obtain a
    where a: "round_magnitude x = Finite a" and ea: "\<bar>a - x\<bar> \<le> 2 powi (- 9)"
    by auto
  have lit: "literal x = Num False (Finite a)"
    using x1 a by (simp add: literal_def)
  have "a * 100 - of_nat k = 100 * (a - x)"
    by (simp add: x_def)
  then have "\<bar>a * 100 - of_nat k\<bar> = \<bar>100 * (a - x)\<bar>"
    by (rule arg_cong)
  also have "\<dots> = 100 * \<bar>a - x\<bar>"
    by (simp only: abs_mult abs_numeral)
  finally have "\<bar>a * 100 - of_nat k\<bar> = 100 * \<bar>a - x\<bar>" .
  with ea have ep: "\<bar>a * 100 - of_nat k\<bar> \<le> 100 / 512"
    by simp
  then have ep': "of_nat k - 100 / 512 \<le> a * 100" "a * 100 \<le> of_nat k + 100 / 512"
    by linarith+
  have "1 / 128 \<le> a * 100" "a * 100 < 4503599627370496"
    using ep' kr by linarith+
  then have p1: "1 / 128 \<le> a * 100" "a * 100 < 2 powi 52"
    by simp_all
  from round_magnitude_error [OF p1] obtain q
    where q: "round_magnitude (a * 100) = Finite q" and eq: "\<bar>q - a * 100\<bar> \<le> 2 powi (- 2)"
    by auto
  from eq have "\<bar>q - a * 100\<bar> \<le> 1 / 4" by simp
  then have qk: "of_nat k - 1 / 2 < q" "q < of_nat k + 1 / 2"
    using ep' by linarith+
  have "\<lfloor>q + 1 / 2\<rfloor> = int k"
  proof (rule floor_unique)
    show "of_int (int k) \<le> q + 1 / 2" using qk by simp
    show "q + 1 / 2 < of_int (int k) + 1" using qk by simp
  qed
  moreover have "int k \<noteq> 0" "\<not> int k < 0" "\<bar>int k\<bar> = int k" using k by simp_all
  ultimately have mr: "Math_round (Num False (Finite q)) = Num False (Finite (of_nat k))"
    by (simp add: Let_def)
  have tm: "times_number (Num False (Finite a)) (Num False (Finite 100))
              = Num False (Finite q)"
    by (simp add: q)
  have cents: "formatAmountInCents (literal x) = Num False (Finite (of_nat k))"
    unfolding formatAmountInCents_def lit literal_100 tm mr ..
  have "divide_number (Num False (Finite (of_nat k))) (Num False (Finite 100))
          = Num False (round_magnitude (of_nat k / 100))"
    by simp
  then have "formatCentsToAmount (Num False (Finite (of_nat k))) = Num False (Finite a)"
    unfolding formatCentsToAmount_def literal_100 using a by (simp add: x_def)
  with cents lit show "formatCentsToAmount (formatAmountInCents (literal (of_nat k / 100)))
      = literal (of_nat k / 100)"
    unfolding x_def by simp
next
  show "formatAmountInCents (literal (10999 / 1000)) = literal 1100"
    by code_simp
qed


theorem amount_round_trip_witness:
  "(1::nat) \<le> 1050 \<and> (1050::nat) < 3518437208883200
   \<and> formatCentsToAmount (formatAmountInCents (literal (1050 / 100))) = literal (1050 / 100)"
  using amount_round_trip [of 1050] by simp

text \<open>The claim as first stated has no upper bound, and fails just above this one. The
  double nearest to \<open>35184372088832.02\<close> is \<open>35184372088832.0234375\<close>; its product
  with 100 is \<open>3518437208883202.34375\<close>, which as a double is
  \<open>3518437208883202.5\<close>; \<open>Math.round\<close> takes that up to \<open>3518437208883203\<close>, and
  the way back gives \<open>35184372088832.03\<close>.\<close>

theorem amount_round_trip_counterexample:
  "formatAmountInCents (literal (3518437208883202 / 100)) = literal 3518437208883203
   \<and> formatCentsToAmount (formatAmountInCents (literal (3518437208883202 / 100)))
       = literal (3518437208883203 / 100)
   \<and> literal (3518437208883203 / 100) \<noteq> literal (3518437208883202 / 100)"
  by code_simp

text \<open>The amounts of the unit tests.\<close>

lemma amount_codec_tests:
  "formatAmountInCents (literal 10) = literal 1000"
  "formatAmountInCents (literal (1050 / 100)) = literal 1050"
  "formatAmountInCents (literal (1 / 100)) = literal 1"
  "formatCentsToAmount (literal 1000) = literal 10"
  "formatCentsToAmount (literal 1050) = literal (1050 / 100)"
  "formatCentsToAmount (literal 1) = literal (1 / 100)"
  by code_simp+

end
